theory Spec2Isabelle
  imports Complex_Main "HOL-Library.Word"
begin

section \<open>Zipf samplers of opencog/util/zipf.h\<close>

text \<open>
  The header defines two class templates, \<open>zipf_distribution\<close> (rejection-inversion) and
  \<open>zipf_table_distribution\<close> (table lookup), over an integer type \<open>IntType\<close> (default
  \<open>unsigned long\<close>) and a floating type \<open>RealType\<close> (default \<open>double\<close>). The default
  \<open>IntType\<close> is taken throughout: a 64-bit unsigned word.

  The header is embedded twice.

  \<^item> The first embedding leaves the floating-point arithmetic and the random-number
    library open: every operator and every function of \<open><cmath>\<close> and \<open><random>\<close> that the
    header calls is a parameter. What is proved of it holds for whatever these operations
    compute, in particular for binary64 arithmetic with its rounding, infinities and NaN.
    Two instances of the parameters follow it: IEEE arithmetic without rounding, and a
    library that feeds the distribution from a list of canonical variates.

  \<^item> The second embedding evaluates the same functions in exact real arithmetic with
    checked operations: an operation without a finite real result yields an error value
    that names its cause, and the error is propagated. It serves the statements about
    which values are computed and about divisions by zero.
\<close>

subsection \<open>Types and constants shared by both embeddings\<close>

datatype error =
    Range_error       \<comment> \<open>the \<open>std::runtime_error\<close> thrown by the constructor\<close>
  | Div_by_zero       \<comment> \<open>operator \<open>/\<close> with a zero divisor\<close>
  | Domain_error      \<comment> \<open>\<open>std::log\<close>, \<open>std::log1p\<close> or \<open>std::pow\<close> without a finite real result\<close>
  | Int_conversion    \<comment> \<open>a floating value converted to an \<open>IntType\<close> that cannot hold it\<close>

type_synonym IntType = "64 word"

definition epsilon :: real where
  "epsilon = 2 / 100000"

text \<open>\<open>std::round\<close>: to the nearest integer, halfway cases away from zero.\<close>

definition c_round :: "real \<Rightarrow> int" where
  "c_round x = (if 0 \<le> x then \<lfloor>x + 1/2\<rfloor> else - \<lfloor>- x + 1/2\<rfloor>)"

section \<open>The header over an open arithmetic and library\<close>

subsection \<open>The operations the header calls\<close>

text \<open>
  The operations on \<open>RealType\<close> values, of type \<open>'d\<close>: decimal literals, the four
  operators and unary minus, the four comparisons, the functions of \<open><cmath>\<close>, and the
  conversions between \<open>IntType\<close> and \<open>RealType\<close>. The header writes \<open>std::abs\<close> in its two
  helpers and an unqualified \<open>abs\<close> in the constructor; which function the unqualified
  name denotes depends on the declarations in scope where the header is included, so it
  is an operation of its own.
\<close>

record 'd arithmetic =
  d_lit :: "real \<Rightarrow> 'd"
  d_add :: "'d \<Rightarrow> 'd \<Rightarrow> 'd"
  d_sub :: "'d \<Rightarrow> 'd \<Rightarrow> 'd"
  d_mul :: "'d \<Rightarrow> 'd \<Rightarrow> 'd"
  d_div :: "'d \<Rightarrow> 'd \<Rightarrow> 'd"
  d_neg :: "'d \<Rightarrow> 'd"
  d_lt :: "'d \<Rightarrow> 'd \<Rightarrow> bool"
  d_gt :: "'d \<Rightarrow> 'd \<Rightarrow> bool"
  d_le :: "'d \<Rightarrow> 'd \<Rightarrow> bool"
  d_ge :: "'d \<Rightarrow> 'd \<Rightarrow> bool"
  d_pow :: "'d \<Rightarrow> 'd \<Rightarrow> 'd"
  d_exp :: "'d \<Rightarrow> 'd"
  d_expm1 :: "'d \<Rightarrow> 'd"
  d_log :: "'d \<Rightarrow> 'd"
  d_log1p :: "'d \<Rightarrow> 'd"
  d_round :: "'d \<Rightarrow> 'd"
  d_abs :: "'d \<Rightarrow> 'd"
  d_unqualified_abs :: "'d \<Rightarrow> 'd"
  d_to_IntType :: "'d \<Rightarrow> IntType"
  d_of_IntType :: "IntType \<Rightarrow> 'd"

text \<open>
  \<open>std::uniform_real_distribution\<close>, with objects of type \<open>'u\<close>, and the generator
  \<open>std::mt19937\<close>, with states of type \<open>'g\<close>. Constructing the distribution from its two
  bounds gives an object; calling the object on a generator gives a value, the object after
  the call and the generator after the call (\<open>operator()\<close> of the library is not \<open>const\<close>).
\<close>

record ('d, 'g, 'u) uniform_library =
  uniform_new :: "'d \<Rightarrow> 'd \<Rightarrow> 'u"
  uniform_draw :: "'u \<Rightarrow> 'g \<Rightarrow> 'd \<times> 'u \<times> 'g"

text \<open>
  The states that calls of the library lead to from a distribution object \<open>d0\<close>.
\<close>

inductive uniform_states :: "('d, 'g, 'u) uniform_library \<Rightarrow> 'u \<Rightarrow> 'u \<Rightarrow> bool"
  for L :: "('d, 'g, 'u) uniform_library" and d0 :: 'u where
  initial: "uniform_states L d0 d0"
| drawn: "uniform_states L d0 d \<Longrightarrow> uniform_draw L d g = (u, d', g') \<Longrightarrow> uniform_states L d0 d'"

code_pred uniform_states .

subsection \<open>\<open>zipf_distribution\<close>\<close>

text \<open>
  The data members in declaration order. The first six are those that \<open>h\<close>, \<open>H\<close> and
  \<open>H_inv\<close> read; the constructor calls these three member functions while the last four
  members are still uninitialised.
\<close>

record 'd zd_members =
  m_n :: IntType
  m_s :: 'd
  m_q :: 'd
  m_oms :: 'd
  m_spole :: bool
  m_rvs :: 'd

record ('d, 'u) zd_object = "'d zd_members" +
  m_H_x1 :: 'd
  m_H_n :: 'd
  m_cut :: 'd
  m_dist :: 'u

definition zd_expxm1bx :: "'d arithmetic \<Rightarrow> 'd \<Rightarrow> 'd" where
  "zd_expxm1bx A x =
     (if d_gt A (d_abs A x) (d_lit A epsilon) then d_div A (d_expm1 A x) x
      else d_add A (d_lit A 1)
             (d_mul A (d_div A x (d_lit A 2))
                (d_add A (d_lit A 1)
                   (d_mul A (d_div A x (d_lit A 3))
                      (d_add A (d_lit A 1) (d_div A x (d_lit A 4)))))))"

definition zd_log1pxbx :: "'d arithmetic \<Rightarrow> 'd \<Rightarrow> 'd" where
  "zd_log1pxbx A x =
     (if d_gt A (d_abs A x) (d_lit A epsilon) then d_div A (d_log1p A x) x
      else d_sub A (d_lit A 1)
             (d_mul A x
                (d_sub A (d_div A (d_lit A 1) (d_lit A 2))
                   (d_mul A x
                      (d_sub A (d_div A (d_lit A 1) (d_lit A 3))
                         (d_mul A x (d_div A (d_lit A 1) (d_lit A 4))))))))"

definition zd_h :: "'d arithmetic \<Rightarrow> ('d, 'a) zd_members_scheme \<Rightarrow> 'd \<Rightarrow> 'd" where
  "zd_h A z x = d_pow A (d_add A x (m_q z)) (d_neg A (m_s z))"

definition zd_H :: "'d arithmetic \<Rightarrow> ('d, 'a) zd_members_scheme \<Rightarrow> 'd \<Rightarrow> 'd" where
  "zd_H A z x =
     (if \<not> m_spole z then d_div A (d_pow A (d_add A x (m_q z)) (m_oms z)) (m_oms z)
      else let log_xpq = d_log A (d_add A x (m_q z))
           in d_mul A log_xpq (zd_expxm1bx A (d_mul A (m_oms z) log_xpq)))"

definition zd_H_inv :: "'d arithmetic \<Rightarrow> ('d, 'a) zd_members_scheme \<Rightarrow> 'd \<Rightarrow> 'd" where
  "zd_H_inv A z y =
     (if \<not> m_spole z then d_sub A (d_pow A (d_mul A y (m_oms z)) (m_rvs z)) (m_q z)
      else d_sub A (d_exp A (d_mul A y (zd_log1pxbx A (d_mul A (m_oms z) y)))) (m_q z))"

text \<open>
  The first six members as the initialiser list computes them from the arguments of the
  constructor.
\<close>

definition zd_first_members :: "'d arithmetic \<Rightarrow> IntType \<Rightarrow> 'd \<Rightarrow> 'd \<Rightarrow> 'd zd_members" where
  "zd_first_members A n s q =
     (let oms = d_sub A (d_lit A 1) s;
          spole = d_lt A (d_unqualified_abs A oms) (d_lit A epsilon);
          rvs = (if spole then d_lit A 0 else d_div A (d_lit A 1) oms)
      in \<lparr>m_n = n, m_s = s, m_q = q, m_oms = oms, m_spole = spole, m_rvs = rvs\<rparr>)"

text \<open>
  The constructor. The member initialisers run first, in declaration order, each reading
  the members initialised before it; none of them throws. The body then tests \<open>q\<close> and
  throws, in which case no object exists.
\<close>

definition zd_construct ::
  "'d arithmetic \<Rightarrow> ('d, 'g, 'u) uniform_library \<Rightarrow> IntType \<Rightarrow> 'd \<Rightarrow> 'd \<Rightarrow>
     error + ('d, 'u) zd_object" where
  "zd_construct A L n s q =
     (let p = zd_first_members A n s q;
          H_x1 = d_sub A (zd_H A p (d_lit A 1.5)) (zd_h A p (d_lit A 1));
          H_n = zd_H A p (d_add A (d_of_IntType A n) (d_lit A 0.5));
          cut = d_sub A (d_lit A 1)
                  (zd_H_inv A p (d_sub A (zd_H A p (d_lit A 1.5)) (zd_h A p (d_lit A 1))));
          dist = uniform_new L H_x1 H_n
      in if d_ge A (d_neg A (d_lit A 0.5)) q then Inl Range_error
         else Inr \<lparr>m_n = m_n p, m_s = m_s p, m_q = m_q p, m_oms = m_oms p,
                   m_spole = m_spole p, m_rvs = m_rvs p,
                   m_H_x1 = H_x1, m_H_n = H_n, m_cut = cut, m_dist = dist\<rparr>)"

text \<open>
  One pass through the body of \<open>while (true)\<close> in \<open>operator()\<close>. The call \<open>dist(rng)\<close> acts
  on the member \<open>dist\<close> and on the generator; the rest of the pass reads the object as that
  call left it. The result is \<open>Some k\<close> when the pass returns \<open>k\<close> and \<open>None\<close> when it falls
  through to the next pass, with the object and the generator after the pass.
\<close>

definition zd_pass ::
  "'d arithmetic \<Rightarrow> ('d, 'g, 'u) uniform_library \<Rightarrow> ('d, 'u) zd_object \<Rightarrow> 'g \<Rightarrow>
     IntType option \<times> ('d, 'u) zd_object \<times> 'g" where
  "zd_pass A L z g =
     (case uniform_draw L (m_dist z) g of (u, d', g') \<Rightarrow>
        let z' = z\<lparr>m_dist := d'\<rparr>;
            x = zd_H_inv A z' u;
            k = d_to_IntType A (d_round A x)
        in if d_le A (d_sub A (d_of_IntType A k) x) (m_cut z') then (Some k, z', g')
           else if d_ge A u (d_sub A (zd_H A z' (d_add A (d_of_IntType A k) (d_lit A 0.5)))
                                     (zd_h A z' (d_of_IntType A k)))
           then (Some k, z', g')
           else (None, z', g'))"

text \<open>
  \<open>operator()\<close>: the loop has no bound on the number of passes, so a call need not return;
  \<open>None\<close> is the call that does not. A call that returns gives the value, the object after
  the call and the generator after the call.
\<close>

partial_function (option) zd_call ::
  "'d arithmetic \<Rightarrow> ('d, 'g, 'u) uniform_library \<Rightarrow> ('d, 'u) zd_object \<Rightarrow> 'g \<Rightarrow>
     (IntType \<times> ('d, 'u) zd_object \<times> 'g) option" where
  "zd_call A L z g =
     (case zd_pass A L z g of
        (Some k, z', g') \<Rightarrow> Some (k, z', g')
      | (None, z', g') \<Rightarrow> zd_call A L z' g')"

text \<open>
  The usage shown in the header's comment: construct a sampler, then draw from it once.
\<close>

definition zd_construct_and_call ::
  "'d arithmetic \<Rightarrow> ('d, 'g, 'u) uniform_library \<Rightarrow> IntType \<Rightarrow> 'd \<Rightarrow> 'd \<Rightarrow> 'g \<Rightarrow>
     (error + IntType) option" where
  "zd_construct_and_call A L n s q g =
     (case zd_construct A L n s q of
        Inl e \<Rightarrow> Some (Inl e)
      | Inr z \<Rightarrow>
          (case zd_call A L z g of
             None \<Rightarrow> None
           | Some (k, z', g') \<Rightarrow> Some (Inr k)))"

subsection \<open>The specification's draw algorithm\<close>

text \<open>
  The specification's loop, as a relation between the object and the generator before the
  call, the value returned, and the object and the generator after it: draw \<open>u\<close> from the
  distribution member, set \<open>x = H_inv(u)\<close> and \<open>k = round(x)\<close>; accept \<open>k\<close> if
  \<open>k - x \<le> cut\<close>; otherwise accept \<open>k\<close> if \<open>u \<ge> H(k + 0.5) - h(k)\<close>; otherwise repeat. The
  squeeze test appears only under the failure of the fast test.
\<close>

inductive spec_draw ::
  "'d arithmetic \<Rightarrow> ('d, 'g, 'u) uniform_library \<Rightarrow> ('d, 'u) zd_object \<Rightarrow> 'g \<Rightarrow>
     IntType \<Rightarrow> ('d, 'u) zd_object \<Rightarrow> 'g \<Rightarrow> bool"
  for A :: "'d arithmetic" and L :: "('d, 'g, 'u) uniform_library" where
  fast_accept:
    "uniform_draw L (m_dist z) g = (u, d', g') \<Longrightarrow>
     x = zd_H_inv A z u \<Longrightarrow> k = d_to_IntType A (d_round A x) \<Longrightarrow>
     d_le A (d_sub A (d_of_IntType A k) x) (m_cut z) \<Longrightarrow>
     spec_draw A L z g k (z\<lparr>m_dist := d'\<rparr>) g'"
| squeeze_accept:
    "uniform_draw L (m_dist z) g = (u, d', g') \<Longrightarrow>
     x = zd_H_inv A z u \<Longrightarrow> k = d_to_IntType A (d_round A x) \<Longrightarrow>
     \<not> d_le A (d_sub A (d_of_IntType A k) x) (m_cut z) \<Longrightarrow>
     d_ge A u (d_sub A (zd_H A z (d_add A (d_of_IntType A k) (d_lit A 0.5)))
                       (zd_h A z (d_of_IntType A k))) \<Longrightarrow>
     spec_draw A L z g k (z\<lparr>m_dist := d'\<rparr>) g'"
| reject:
    "uniform_draw L (m_dist z) g = (u, d', g') \<Longrightarrow>
     x = zd_H_inv A z u \<Longrightarrow> k = d_to_IntType A (d_round A x) \<Longrightarrow>
     \<not> d_le A (d_sub A (d_of_IntType A k) x) (m_cut z) \<Longrightarrow>
     \<not> d_ge A u (d_sub A (zd_H A z (d_add A (d_of_IntType A k) (d_lit A 0.5)))
                         (zd_h A z (d_of_IntType A k))) \<Longrightarrow>
     spec_draw A L (z\<lparr>m_dist := d'\<rparr>) g' k' z'' g'' \<Longrightarrow>
     spec_draw A L z g k' z'' g''"

code_pred spec_draw .

section \<open>Two instances of the open operations\<close>

subsection \<open>IEEE arithmetic without rounding\<close>

text \<open>
  The values of a binary floating-point format, idealised: a finite value is an exact real
  number and an operation on finite values with a finite real result is exact (no
  rounding, no overflow, no underflow, one zero). The infinities and NaN behave as IEEE 754
  and Annex F of the C standard prescribe. The instance is what the embedding is evaluated
  in at concrete arguments; it is meant for arguments at which binary64 neither overflows
  nor underflows, meets no negative zero, and rounds by too little to change the outcome
  of a comparison or of \<open>std::round\<close>.
\<close>

datatype ieee = Fin real | PInf | MInf | NaN

fun ieee_neg :: "ieee \<Rightarrow> ieee" where
  "ieee_neg (Fin x) = Fin (- x)"
| "ieee_neg PInf = MInf"
| "ieee_neg MInf = PInf"
| "ieee_neg NaN = NaN"

fun ieee_add :: "ieee \<Rightarrow> ieee \<Rightarrow> ieee" where
  "ieee_add (Fin x) (Fin y) = Fin (x + y)"
| "ieee_add NaN b = NaN"
| "ieee_add a NaN = NaN"
| "ieee_add PInf MInf = NaN"
| "ieee_add MInf PInf = NaN"
| "ieee_add PInf b = PInf"
| "ieee_add MInf b = MInf"
| "ieee_add a PInf = PInf"
| "ieee_add a MInf = MInf"

definition ieee_sub :: "ieee \<Rightarrow> ieee \<Rightarrow> ieee" where
  "ieee_sub a b = ieee_add a (ieee_neg b)"

text \<open>The sign of a value that is not NaN, with the one zero counted as positive.\<close>

fun ieee_negative :: "ieee \<Rightarrow> bool" where
  "ieee_negative (Fin x) = (x < 0)"
| "ieee_negative PInf = False"
| "ieee_negative MInf = True"
| "ieee_negative NaN = False"

fun ieee_mul :: "ieee \<Rightarrow> ieee \<Rightarrow> ieee" where
  "ieee_mul (Fin x) (Fin y) = Fin (x * y)"
| "ieee_mul NaN b = NaN"
| "ieee_mul a NaN = NaN"
| "ieee_mul a b =
     (if a = Fin 0 \<or> b = Fin 0 then NaN
      else if ieee_negative a = ieee_negative b then PInf else MInf)"

fun ieee_div :: "ieee \<Rightarrow> ieee \<Rightarrow> ieee" where
  "ieee_div (Fin x) (Fin y) =
     (if y \<noteq> 0 then Fin (x / y)
      else if x = 0 then NaN else if 0 < x then PInf else MInf)"
| "ieee_div NaN b = NaN"
| "ieee_div a NaN = NaN"
| "ieee_div (Fin x) b = Fin 0"
| "ieee_div a (Fin y) = (if ieee_negative a = (y < 0) then PInf else MInf)"
| "ieee_div a b = NaN"

text \<open>A comparison with a NaN operand is false.\<close>

fun ieee_lt :: "ieee \<Rightarrow> ieee \<Rightarrow> bool" where
  "ieee_lt (Fin x) (Fin y) = (x < y)"
| "ieee_lt NaN b = False"
| "ieee_lt a NaN = False"
| "ieee_lt MInf b = (b \<noteq> MInf)"
| "ieee_lt a PInf = (a \<noteq> PInf)"
| "ieee_lt a b = False"

fun ieee_le :: "ieee \<Rightarrow> ieee \<Rightarrow> bool" where
  "ieee_le (Fin x) (Fin y) = (x \<le> y)"
| "ieee_le NaN b = False"
| "ieee_le a NaN = False"
| "ieee_le MInf b = True"
| "ieee_le a PInf = True"
| "ieee_le a b = False"

fun ieee_exp :: "ieee \<Rightarrow> ieee" where
  "ieee_exp (Fin x) = Fin (exp x)"
| "ieee_exp PInf = PInf"
| "ieee_exp MInf = Fin 0"
| "ieee_exp NaN = NaN"

fun ieee_expm1 :: "ieee \<Rightarrow> ieee" where
  "ieee_expm1 (Fin x) = Fin (exp x - 1)"
| "ieee_expm1 PInf = PInf"
| "ieee_expm1 MInf = Fin (- 1)"
| "ieee_expm1 NaN = NaN"

fun ieee_log :: "ieee \<Rightarrow> ieee" where
  "ieee_log (Fin x) = (if 0 < x then Fin (ln x) else if x = 0 then MInf else NaN)"
| "ieee_log PInf = PInf"
| "ieee_log MInf = NaN"
| "ieee_log NaN = NaN"

fun ieee_log1p :: "ieee \<Rightarrow> ieee" where
  "ieee_log1p (Fin x) = (if 0 < 1 + x then Fin (ln (1 + x)) else if 1 + x = 0 then MInf else NaN)"
| "ieee_log1p PInf = PInf"
| "ieee_log1p MInf = NaN"
| "ieee_log1p NaN = NaN"

fun ieee_abs :: "ieee \<Rightarrow> ieee" where
  "ieee_abs (Fin x) = Fin \<bar>x\<bar>"
| "ieee_abs PInf = PInf"
| "ieee_abs MInf = PInf"
| "ieee_abs NaN = NaN"

fun ieee_round :: "ieee \<Rightarrow> ieee" where
  "ieee_round (Fin x) = Fin (of_int (c_round x))"
| "ieee_round a = a"

text \<open>
  \<open>std::pow\<close>, by the cases of Annex F: any base to the power 0 is 1, and 1 to any power
  is 1, even for a NaN; a positive base has a real power; base 0 gives 0 for a positive
  exponent and \<open>+\<infinity>\<close> for a negative one; a negative base has a power only for an integral
  exponent and gives NaN otherwise.
\<close>

definition odd_integer :: "real \<Rightarrow> bool" where
  "odd_integer y = (y = of_int \<lfloor>y\<rfloor> \<and> odd \<lfloor>y\<rfloor>)"

fun ieee_pow :: "ieee \<Rightarrow> ieee \<Rightarrow> ieee" where
  "ieee_pow (Fin x) (Fin y) =
     (if y = 0 then Fin 1
      else if 0 < x then Fin (x powr y)
      else if x = 0 then (if 0 < y then Fin 0 else PInf)
      else if y = of_int \<lfloor>y\<rfloor> then Fin (x powi \<lfloor>y\<rfloor>)
      else NaN)"
| "ieee_pow PInf (Fin y) = (if y = 0 then Fin 1 else if 0 < y then PInf else Fin 0)"
| "ieee_pow MInf (Fin y) =
     (if y = 0 then Fin 1
      else if 0 < y then (if odd_integer y then MInf else PInf)
      else Fin 0)"
| "ieee_pow NaN (Fin y) = (if y = 0 then Fin 1 else NaN)"
| "ieee_pow (Fin x) PInf =
     (if \<bar>x\<bar> = 1 then Fin 1 else if \<bar>x\<bar> < 1 then Fin 0 else PInf)"
| "ieee_pow (Fin x) MInf =
     (if \<bar>x\<bar> = 1 then Fin 1 else if \<bar>x\<bar> < 1 then PInf else Fin 0)"
| "ieee_pow (Fin x) NaN = (if x = 1 then Fin 1 else NaN)"
| "ieee_pow NaN b = NaN"
| "ieee_pow a NaN = NaN"
| "ieee_pow a PInf = PInf"
| "ieee_pow a MInf = Fin 0"

text \<open>
  The conversion of a \<open>RealType\<close> to \<open>IntType\<close> truncates. Its behaviour is undefined in
  C++ when the truncated value is not representable; the instance fixes the result 0 there.
\<close>

fun ieee_to_IntType :: "ieee \<Rightarrow> IntType" where
  "ieee_to_IntType (Fin x) = (if 0 \<le> x \<and> x < 2 ^ 64 then word_of_int \<lfloor>x\<rfloor> else 0)"
| "ieee_to_IntType a = 0"

definition ieee_of_IntType :: "IntType \<Rightarrow> ieee" where
  "ieee_of_IntType k = Fin (real (unat k))"

text \<open>
  The two functions that the unqualified \<open>abs(oms)\<close> of the constructor can denote. Where
  an overload for floating arguments is in scope it is the absolute value of a
  \<open>RealType\<close>. Where only \<open>int abs(int)\<close> of the C library is in scope, as with the header's
  own three includes under the GNU library, the argument is converted to \<open>int\<close>, which
  truncates towards zero, and the \<open>int\<close> result is converted back for the comparison with
  \<open>epsilon\<close>. The conversion is undefined in C++ outside the range of \<open>int\<close>; the instance
  fixes the result \<open>- 2^31\<close> there.
\<close>

datatype abs_overload = Abs_floating | Abs_int

definition int_of_RealType :: "real \<Rightarrow> int" where
  "int_of_RealType x = (if 0 \<le> x then \<lfloor>x\<rfloor> else \<lceil>x\<rceil>)"

fun ieee_int_abs :: "ieee \<Rightarrow> ieee" where
  "ieee_int_abs (Fin x) =
     (if \<bar>int_of_RealType x\<bar> < 2 ^ 31 then Fin (of_int \<bar>int_of_RealType x\<bar>) else Fin (- (2 ^ 31)))"
| "ieee_int_abs a = Fin (- (2 ^ 31))"

fun ieee_unqualified_abs :: "abs_overload \<Rightarrow> ieee \<Rightarrow> ieee" where
  "ieee_unqualified_abs Abs_floating = ieee_abs"
| "ieee_unqualified_abs Abs_int = ieee_int_abs"

definition ieee_arithmetic :: "abs_overload \<Rightarrow> ieee arithmetic" where
  "ieee_arithmetic ov =
     \<lparr>d_lit = Fin, d_add = ieee_add, d_sub = ieee_sub, d_mul = ieee_mul, d_div = ieee_div,
      d_neg = ieee_neg,
      d_lt = ieee_lt, d_gt = (\<lambda>a b. ieee_lt b a), d_le = ieee_le, d_ge = (\<lambda>a b. ieee_le b a),
      d_pow = ieee_pow, d_exp = ieee_exp, d_expm1 = ieee_expm1, d_log = ieee_log,
      d_log1p = ieee_log1p, d_round = ieee_round, d_abs = ieee_abs,
      d_unqualified_abs = ieee_unqualified_abs ov,
      d_to_IntType = ieee_to_IntType, d_of_IntType = ieee_of_IntType\<rparr>"

subsection \<open>A library fed from a list of canonical variates\<close>

text \<open>
  The generator is represented by the list of the canonical variates that the distribution
  obtains from it, continued by zeros. The distribution object holds its two bounds; a
  call maps the next variate \<open>c\<close> to \<open>c * (b - a) + a\<close>, computed in the arithmetic, and
  leaves the object as it was.
\<close>

record 'd uniform_bounds =
  bound_a :: 'd
  bound_b :: 'd

definition variate_library :: "'d arithmetic \<Rightarrow> ('d, 'd list, 'd uniform_bounds) uniform_library" where
  "variate_library A =
     \<lparr>uniform_new = (\<lambda>a b. \<lparr>bound_a = a, bound_b = b\<rparr>),
      uniform_draw = (\<lambda>d g.
        (d_add A (d_mul A (case g of [] \<Rightarrow> d_lit A 0 | c # g' \<Rightarrow> c)
                          (d_sub A (bound_b d) (bound_a d)))
                 (bound_a d),
         d, tl g))\<rparr>"

section \<open>Checked evaluation in exact real arithmetic\<close>

text \<open>
  The second embedding idealises \<open>RealType\<close>: a finite value is an exact real number, and
  arithmetic on finite values is exact (no rounding, no overflow, no underflow). An
  operation that has no finite real result (a division by zero, a logarithm or power
  outside its domain) yields an error value in place of the IEEE infinity or NaN, and that
  error is propagated by every operation that consumes it; this embedding does not follow
  IEEE arithmetic past a value that is not finite.
\<close>

subsection \<open>Values and errors\<close>

type_synonym RealType = "error + real"

definition bindE :: "error + 'a \<Rightarrow> ('a \<Rightarrow> error + 'b) \<Rightarrow> error + 'b" where
  "bindE m f = (case m of Inl e \<Rightarrow> Inl e | Inr x \<Rightarrow> f x)"

definition fp_sub :: "RealType \<Rightarrow> RealType \<Rightarrow> RealType" where
  "fp_sub a b = bindE a (\<lambda>x. bindE b (\<lambda>y. Inr (x - y)))"

subsection \<open>The operations of \<open><cmath>\<close> used by the header\<close>

definition c_div :: "real \<Rightarrow> real \<Rightarrow> RealType" where
  "c_div x y = (if y = 0 then Inl Div_by_zero else Inr (x / y))"

definition c_log :: "real \<Rightarrow> RealType" where
  "c_log x = (if x \<le> 0 then Inl Domain_error else Inr (ln x))"

definition c_log1p :: "real \<Rightarrow> RealType" where
  "c_log1p x = (if 1 + x \<le> 0 then Inl Domain_error else Inr (ln (1 + x)))"

definition c_expm1 :: "real \<Rightarrow> real" where
  "c_expm1 x = exp x - 1"

text \<open>
  \<open>std::pow\<close>: any base to the power 0 is 1; a positive base has a real power; base 0
  gives 0 for a positive exponent and a pole for a negative one; a negative base has a
  power only for an integral exponent.
\<close>

definition c_pow :: "real \<Rightarrow> real \<Rightarrow> RealType" where
  "c_pow x y =
     (if y = 0 then Inr 1
      else if 0 < x then Inr (x powr y)
      else if x = 0 then (if 0 < y then Inr 0 else Inl Domain_error)
      else if y = of_int \<lfloor>y\<rfloor> then Inr (x powi \<lfloor>y\<rfloor>)
      else Inl Domain_error)"

text \<open>
  The implicit conversion of the rounded value to \<open>IntType\<close>; its behaviour is undefined
  in C++ when the value is not representable.
\<close>

definition IntType_of_int :: "int \<Rightarrow> error + IntType" where
  "IntType_of_int i = (if 0 \<le> i \<and> i < 2 ^ 64 then Inr (word_of_int i) else Inl Int_conversion)"

text \<open>An \<open>IntType\<close> converted to \<open>RealType\<close>, as in \<open>n + 0.5\<close>, \<open>k - x\<close> and \<open>(double)i\<close>.\<close>

definition RealType_of :: "IntType \<Rightarrow> real" where
  "RealType_of k = real (unat k)"

subsection \<open>The random-number library\<close>

text \<open>
  The generator \<open>std::mt19937& rng\<close> is external to the header. For the checked evaluation
  of \<open>zipf_distribution\<close> it is represented by the finite sequence of canonical variates
  that the distribution will obtain from it; a call that needs a variate when none is left
  has no result (\<open>None\<close>). \<open>std::uniform_real_distribution(a, b)\<close> holds its two parameters
  and maps a canonical variate \<open>c\<close> to \<open>a + (b - a) * c\<close>.

  \<open>std::discrete_distribution\<close> is built from the weights and holds them.
\<close>

type_synonym mt19937 = "real list"

record uniform_real_distribution =
  dist_a :: RealType
  dist_b :: RealType

definition uniform_call :: "uniform_real_distribution \<Rightarrow> real \<Rightarrow> RealType" where
  "uniform_call d c = bindE (dist_a d) (\<lambda>a. bindE (dist_b d) (\<lambda>b. Inr (a + (b - a) * c)))"

type_synonym discrete_distribution = "RealType list"

subsection \<open>\<open>zipf_distribution\<close>\<close>

text \<open>The members in declaration order; the first six are those read by \<open>h\<close>, \<open>H\<close>, \<open>H_inv\<close>.\<close>

record zipf_params =
  z_n :: IntType
  z_s :: real
  z_q :: real
  oms :: real
  spole :: bool
  rvs :: RealType

record zipf_distribution = zipf_params +
  H_x1 :: RealType
  H_n :: RealType
  cut :: RealType
  z_dist :: uniform_real_distribution

definition expxm1bx :: "real \<Rightarrow> RealType" where
  "expxm1bx x =
     (if \<bar>x\<bar> > epsilon then c_div (c_expm1 x) x
      else Inr (1 + x / 2 * (1 + x / 3 * (1 + x / 4))))"

definition log1pxbx :: "real \<Rightarrow> RealType" where
  "log1pxbx x =
     (if \<bar>x\<bar> > epsilon then bindE (c_log1p x) (\<lambda>l. c_div l x)
      else Inr (1 - x * ((1 / 2) - x * ((1 / 3) - x * (1 / 4)))))"

definition h :: "'a zipf_params_scheme \<Rightarrow> real \<Rightarrow> RealType" where
  "h z x = c_pow (x + z_q z) (- z_s z)"

definition H :: "'a zipf_params_scheme \<Rightarrow> real \<Rightarrow> RealType" where
  "H z x =
     (if \<not> spole z then bindE (c_pow (x + z_q z) (oms z)) (\<lambda>w. c_div w (oms z))
      else bindE (c_log (x + z_q z)) (\<lambda>log_xpq.
           bindE (expxm1bx (oms z * log_xpq)) (\<lambda>e. Inr (log_xpq * e))))"

definition H_inv :: "'a zipf_params_scheme \<Rightarrow> real \<Rightarrow> RealType" where
  "H_inv z y =
     (if \<not> spole z then bindE (rvs z) (\<lambda>r. bindE (c_pow (y * oms z) r) (\<lambda>w. Inr (w - z_q z)))
      else bindE (log1pxbx (oms z * y)) (\<lambda>l. Inr (exp (y * l) - z_q z)))"

text \<open>
  The constructor. The member initialisers run first, in declaration order, each reading
  the members initialised before it; none of them throws. The body then tests \<open>q\<close>.
  The call \<open>abs(oms)\<close> carries no \<open>std::\<close> qualifier, so the overload it names depends
  on the declarations in scope where the header is included; the checked evaluation takes
  the absolute value of a \<open>RealType\<close>, as in the two helpers, which write \<open>std::abs\<close>.
\<close>

definition zipf_distribution :: "IntType \<Rightarrow> real \<Rightarrow> real \<Rightarrow> error + zipf_distribution" where
  "zipf_distribution n s q =
     (let oms0 = 1 - s;
          spole0 = (\<bar>oms0\<bar> < epsilon);
          rvs0 = (if spole0 then Inr 0 else c_div 1 oms0);
          p = \<lparr>z_n = n, z_s = s, z_q = q, oms = oms0, spole = spole0, rvs = rvs0\<rparr>;
          H_x10 = fp_sub (H p 1.5) (h p 1);
          H_n0 = H p (RealType_of n + 0.5);
          cut0 = fp_sub (Inr 1) (bindE (fp_sub (H p 1.5) (h p 1)) (H_inv p));
          dist0 = \<lparr>dist_a = H_x10, dist_b = H_n0\<rparr>
      in if - 0.5 \<ge> q then Inl Range_error
         else Inr \<lparr>z_n = n, z_s = s, z_q = q, oms = oms0, spole = spole0, rvs = rvs0,
                   H_x1 = H_x10, H_n = H_n0, cut = cut0, z_dist = dist0\<rparr>)"

text \<open>
  One pass through the body of \<open>while (true)\<close> in \<open>operator()\<close>, with the canonical variate
  \<open>c\<close> that \<open>dist(rng)\<close> consumes: \<open>Some k\<close> when the pass returns \<open>k\<close>, \<open>None\<close> when it
  falls through to the next pass. The checked evaluation ends at the first operation
  without a finite result and reports its cause.
\<close>

definition zipf_iteration :: "zipf_distribution \<Rightarrow> real \<Rightarrow> error + IntType option" where
  "zipf_iteration z c =
     bindE (uniform_call (z_dist z) c) (\<lambda>u.
     bindE (H_inv z u) (\<lambda>x.
     bindE (IntType_of_int (c_round x)) (\<lambda>k.
     bindE (cut z) (\<lambda>ct.
       if RealType_of k - x \<le> ct then Inr (Some k)
       else bindE (fp_sub (H z (RealType_of k + 0.5)) (h z (RealType_of k))) (\<lambda>t.
         if u \<ge> t then Inr (Some k) else Inr None)))))"

text \<open>
  \<open>operator()\<close> under the checked evaluation: the value returned with the generator after
  the call, or the cause for which the evaluation ended.
\<close>

fun zipf_distribution_call ::
  "zipf_distribution \<Rightarrow> mt19937 \<Rightarrow> (error + IntType \<times> zipf_distribution \<times> mt19937) option" where
  "zipf_distribution_call z [] = None"
| "zipf_distribution_call z (c # rng) =
     (case zipf_iteration z c of
        Inl e \<Rightarrow> Some (Inl e)
      | Inr (Some k) \<Rightarrow> Some (Inr (k, z, rng))
      | Inr None \<Rightarrow> zipf_distribution_call z rng)"

subsection \<open>\<open>zipf_table_distribution\<close>\<close>

record zipf_table_distribution =
  t_pdf :: "RealType list"
  t_n :: IntType
  t_s :: real
  t_q :: real
  t_dist :: discrete_distribution

text \<open>
  The loop \<open>for (IntType i=1; i<=n; i++)\<close> of \<open>init\<close>. The counter is a 64-bit word; for
  \<open>n = 2^64 - 1\<close> the test \<open>i <= n\<close> never fails and the loop has no exit.
\<close>

partial_function (option) init_loop ::
  "IntType \<Rightarrow> real \<Rightarrow> real \<Rightarrow> IntType \<Rightarrow> RealType list \<Rightarrow> RealType list option" where
  "init_loop n s q i pdf =
     (if i \<le> n then init_loop n s q (i + 1) (pdf @ [c_pow (q + RealType_of i) (- s)])
      else Some pdf)"

text \<open>\<open>init\<close> appends to the member \<open>_pdf\<close> and returns \<open>n\<close>; \<open>reserve\<close> changes no element.\<close>

definition init :: "RealType list \<Rightarrow> IntType \<Rightarrow> real \<Rightarrow> real \<Rightarrow> (IntType \<times> RealType list) option" where
  "init pdf n s q =
     (case init_loop n s q 1 (pdf @ [Inr 0]) of
        None \<Rightarrow> None
      | Some pdf' \<Rightarrow> Some (n, pdf'))"

text \<open>
  The constructor: \<open>_pdf\<close> is declared first and starts empty, \<open>_n\<close> is initialised by
  \<open>init\<close>, which fills \<open>_pdf\<close>, and \<open>_dist\<close> is built last from the filled \<open>_pdf\<close>.
\<close>

definition zipf_table_distribution ::
  "IntType \<Rightarrow> real \<Rightarrow> real \<Rightarrow> zipf_table_distribution option" where
  "zipf_table_distribution n s q =
     (case init [] n s q of
        None \<Rightarrow> None
      | Some (n', pdf) \<Rightarrow> Some \<lparr>t_pdf = pdf, t_n = n', t_s = s, t_q = q, t_dist = pdf\<rparr>)"

text \<open>
  \<open>operator()\<close> returns \<open>_dist(rng)\<close>. The call acts on the member \<open>_dist\<close> and on the
  generator; what it returns and how it leaves the two is the library's, so the library's
  \<open>operator()\<close> is a parameter: from the distribution object and the generator to the
  index drawn, the object after the call and the generator after the call.
\<close>

definition zipf_table_distribution_call ::
  "(discrete_distribution \<Rightarrow> 'g \<Rightarrow> IntType \<times> discrete_distribution \<times> 'g) \<Rightarrow>
     zipf_table_distribution \<Rightarrow> 'g \<Rightarrow> IntType \<times> zipf_table_distribution \<times> 'g" where
  "zipf_table_distribution_call D t g =
     (case D (t_dist t) g of (i, d', g') \<Rightarrow> (i, t\<lparr>t_dist := d'\<rparr>, g'))"

text \<open>
  An instance of that parameter, for finite weights and a generator given by the list of
  its canonical variates, continued by zeros: the weights are divided by their sum, the
  quotients are summed up cumulatively, and the index drawn is that of the first
  cumulative sum that is not less than the variate. The object is left as it was.
\<close>

definition cumulative_sums :: "real list \<Rightarrow> real list" where
  "cumulative_sums ws = map (\<lambda>i. sum_list (take (Suc i) ws)) [0..<length ws]"

definition cumulative_draw ::
  "discrete_distribution \<Rightarrow> real list \<Rightarrow> IntType \<times> discrete_distribution \<times> real list" where
  "cumulative_draw d g =
     (let ws = map (\<lambda>w. case w of Inr x \<Rightarrow> x | Inl e \<Rightarrow> 0) d;
          cp = cumulative_sums (map (\<lambda>w. w / sum_list ws) ws);
          c = (case g of [] \<Rightarrow> 0 | c # g' \<Rightarrow> c)
      in (of_nat (length (takeWhile (\<lambda>p. p < c) cp)), d, tl g))"

subsection \<open>Auxiliary definitions\<close>

text \<open>
  The first six members as the initialiser list computes them: the object on which the
  constructor calls \<open>H\<close>, \<open>h\<close> and \<open>H_inv\<close> while the remaining members are being
  initialised.
\<close>

definition params_of :: "IntType \<Rightarrow> real \<Rightarrow> real \<Rightarrow> zipf_params" where
  "params_of n s q =
     \<lparr>z_n = n, z_s = s, z_q = q, oms = 1 - s, spole = (\<bar>1 - s\<bar> < epsilon),
      rvs = (if \<bar>1 - s\<bar> < epsilon then Inr 0 else c_div 1 (1 - s))\<rparr>"

text \<open>
  The values and the first six members of the checked evaluation as values and members of
  the IEEE instance of the open embedding. An error value stands for a result that is not
  finite without saying which; it is mapped to NaN.
\<close>

definition ieee_of_RealType :: "RealType \<Rightarrow> ieee" where
  "ieee_of_RealType v = (case v of Inr x \<Rightarrow> Fin x | Inl e \<Rightarrow> NaN)"

definition ieee_members :: "'a zipf_params_scheme \<Rightarrow> ieee zd_members" where
  "ieee_members z =
     \<lparr>m_n = z_n z, m_s = Fin (z_s z), m_q = Fin (z_q z), m_oms = Fin (oms z),
      m_spole = spole z, m_rvs = ieee_of_RealType (rvs z)\<rparr>"

section \<open>The specification's formulas\<close>

text \<open>
  The specification's two regimes of the cumulative function and of its inverse, as real
  functions, with the helpers \<open>(e^t - 1)/t\<close> and \<open>log(1 + t)/t\<close> replaced by the first four
  terms of their power series when \<open>|t|\<close> is at most the tolerance.
\<close>

definition spec_expxm1bx :: "real \<Rightarrow> real" where
  "spec_expxm1bx t = (if \<bar>t\<bar> \<le> epsilon then (\<Sum>k<4. t ^ k / fact (k + 1)) else (exp t - 1) / t)"

definition spec_log1pxbx :: "real \<Rightarrow> real" where
  "spec_log1pxbx t = (if \<bar>t\<bar> \<le> epsilon then (\<Sum>k<4. (- t) ^ k / real (k + 1)) else ln (1 + t) / t)"

definition spec_H :: "real \<Rightarrow> real \<Rightarrow> real \<Rightarrow> real" where
  "spec_H s q x =
     (if \<bar>1 - s\<bar> < epsilon then ln (x + q) * spec_expxm1bx ((1 - s) * ln (x + q))
      else (x + q) powr (1 - s) / (1 - s))"

definition spec_H_inv :: "real \<Rightarrow> real \<Rightarrow> real \<Rightarrow> real" where
  "spec_H_inv s q y =
     (if \<bar>1 - s\<bar> < epsilon then exp (y * spec_log1pxbx ((1 - s) * y)) - q
      else (y * (1 - s)) powr (1 / (1 - s)) - q)"

section \<open>Auxiliary facts\<close>

subsection \<open>Checked evaluation: error propagation\<close>

lemma bindE_Inr [simp]: "bindE (Inr x) f = f x"
  by (simp add: bindE_def)

lemma bindE_Inl [simp]: "bindE (Inl e) f = Inl e"
  by (simp add: bindE_def)

subsection \<open>Checked evaluation: the constructor\<close>

lemma H_fields: "z_q z = z_q p \<Longrightarrow> oms z = oms p \<Longrightarrow> spole z = spole p \<Longrightarrow> H z x = H p x"
  by (simp add: H_def)

lemma h_fields: "z_q z = z_q p \<Longrightarrow> z_s z = z_s p \<Longrightarrow> h z x = h p x"
  by (simp add: h_def)

lemma H_inv_fields:
  "z_q z = z_q p \<Longrightarrow> oms z = oms p \<Longrightarrow> spole z = spole p \<Longrightarrow> rvs z = rvs p \<Longrightarrow>
   H_inv z y = H_inv p y"
  by (simp add: H_inv_def)

lemma zipf_distribution_Inr:
  assumes "zipf_distribution n s q = Inr z"
  shows "- 1/2 < q"
    and "z_n z = n" and "z_s z = s" and "z_q z = q"
    and "oms z = 1 - s" and "spole z = (\<bar>1 - s\<bar> < epsilon)"
    and "rvs z = (if \<bar>1 - s\<bar> < epsilon then Inr 0 else c_div 1 (1 - s))"
  using assms by (auto simp: zipf_distribution_def Let_def split: if_splits)

lemma epsilon_pos: "0 < epsilon"
  by (simp add: epsilon_def)

lemma c_pow_pos: "0 < x \<Longrightarrow> c_pow x y = Inr (x powr y)"
  by (simp add: c_pow_def)

lemma zipf_distribution_members:
  assumes "zipf_distribution n s q = Inr z"
  shows "H_x1 z = fp_sub (H (params_of n s q) 1.5) (h (params_of n s q) 1)"
    and "H_n z = H (params_of n s q) (RealType_of n + 0.5)"
    and "cut z = fp_sub (Inr 1)
           (bindE (fp_sub (H (params_of n s q) 1.5) (h (params_of n s q) 1)) (H_inv (params_of n s q)))"
    and "z_dist z = \<lparr>dist_a = H_x1 z, dist_b = H_n z\<rparr>"
  using assms by (auto simp: zipf_distribution_def params_of_def Let_def split: if_splits)

lemma params_of_fields:
  assumes "zipf_distribution n s q = Inr z"
  shows "H (params_of n s q) = H z" "h (params_of n s q) = h z" "H_inv (params_of n s q) = H_inv z"
proof -
  note f = zipf_distribution_Inr[OF assms]
  show "H (params_of n s q) = H z"
    by (rule ext, rule H_fields) (simp_all add: f params_of_def)
  show "h (params_of n s q) = h z"
    by (rule ext, rule h_fields) (simp_all add: f params_of_def)
  show "H_inv (params_of n s q) = H_inv z"
    by (rule ext, rule H_inv_fields) (simp_all add: f params_of_def)
qed

subsection \<open>Checked evaluation: divisions in the helpers\<close>

lemma expxm1bx_no_div0: "expxm1bx x \<noteq> Inl Div_by_zero"
proof (cases "\<bar>x\<bar> > epsilon")
  case True
  then have "x \<noteq> 0" using epsilon_pos by auto
  then show ?thesis using True by (simp add: expxm1bx_def c_div_def)
next
  case False
  then show ?thesis by (simp add: expxm1bx_def)
qed

lemma log1pxbx_no_div0: "log1pxbx x \<noteq> Inl Div_by_zero"
proof (cases "\<bar>x\<bar> > epsilon")
  case True
  then have "x \<noteq> 0" using epsilon_pos by auto
  then show ?thesis using True by (simp add: log1pxbx_def c_div_def c_log1p_def bindE_def)
next
  case False
  then show ?thesis by (simp add: log1pxbx_def)
qed

lemma c_log_no_div0: "c_log x \<noteq> Inl Div_by_zero"
  by (simp add: c_log_def)

lemma c_pow_no_div0: "c_pow x y \<noteq> Inl Div_by_zero"
  by (simp add: c_pow_def)

lemma bindE_no_div0:
  "m \<noteq> Inl Div_by_zero \<Longrightarrow> (\<And>x. f x \<noteq> Inl Div_by_zero) \<Longrightarrow> bindE m f \<noteq> Inl Div_by_zero"
  by (cases m) (simp_all add: bindE_def)

lemma H_near_pole_no_div0: "spole z \<Longrightarrow> H z x \<noteq> Inl Div_by_zero"
  unfolding H_def by (simp, intro bindE_no_div0 c_log_no_div0 expxm1bx_no_div0) simp

lemma H_inv_near_pole_no_div0: "spole z \<Longrightarrow> H_inv z y \<noteq> Inl Div_by_zero"
  unfolding H_inv_def by (simp, intro bindE_no_div0 log1pxbx_no_div0) simp

subsection \<open>The table and its loop\<close>

lemma word_succ_unat:
  fixes i n :: IntType
  assumes "i \<le> n" "n \<noteq> - 1"
  shows "unat (i + 1) = unat i + 1"
proof -
  have "i \<noteq> - 1" using assms word_n1_ge[of n] by (auto intro: order.antisym)
  then have "1 + i \<noteq> 0" by (simp add: eq_neg_iff_add_eq_0 add.commute)
  then have "unat (1 + i) = Suc (unat i)" by (rule unatSuc)
  then show ?thesis by (simp add: add.commute)
qed

lemma init_loop_returns:
  assumes "n \<noteq> - 1" "unat i \<le> unat n + 1"
  shows "init_loop n s q i pdf =
         Some (pdf @ map (\<lambda>j. c_pow (q + real j) (- s)) [unat i ..< unat n + 1])"
  using assms(2)
proof (induction "unat n + 1 - unat i" arbitrary: i pdf)
  case 0
  then have "unat i = unat n + 1" by simp
  then have "\<not> i \<le> n" by (simp add: word_le_nat_alt)
  then show ?case using \<open>unat i = unat n + 1\<close> by (subst init_loop.simps) simp
next
  case (Suc d)
  from Suc.hyps(2) have le': "unat i \<le> unat n" by linarith
  then have le: "i \<le> n" by (simp add: word_le_nat_alt)
  have u: "unat (i + 1) = unat i + 1" by (rule word_succ_unat[OF le assms(1)])
  have d: "d = unat n + 1 - unat (i + 1)" using Suc.hyps(2) by (simp add: u)
  have "init_loop n s q (i + 1) (pdf @ [c_pow (q + RealType_of i) (- s)]) =
        Some ((pdf @ [c_pow (q + RealType_of i) (- s)]) @
              map (\<lambda>j. c_pow (q + real j) (- s)) [unat (i + 1) ..< unat n + 1])"
    by (rule Suc.hyps(1)[OF d]) (simp add: u le')
  moreover have "[unat i ..< unat n + 1] = unat i # [unat i + 1 ..< unat n + 1]"
    using le' by (simp add: upt_conv_Cons)
  ultimately show ?case using le
    by (subst init_loop.simps) (simp add: u RealType_of_def)
qed

lemma init_loop_Some:
  "init_loop n s q i pdf = Some r \<Longrightarrow>
   n \<noteq> - 1 \<and> (unat i \<le> unat n + 1 \<longrightarrow>
     r = pdf @ map (\<lambda>j. c_pow (q + real j) (- s)) [unat i ..< unat n + 1])"
proof (induction rule: init_loop.raw_induct[rotated 1, consumes 1, case_names step])
  case (step init_loop' n s q i pdf r)
  show ?case
  proof (cases "i \<le> n")
    case True
    with step(2) have "init_loop' n s q (i + 1) (pdf @ [c_pow (q + RealType_of i) (- s)]) = Some r"
      by simp
    then have ih: "n \<noteq> - 1 \<and> (unat (i + 1) \<le> unat n + 1 \<longrightarrow>
       r = (pdf @ [c_pow (q + RealType_of i) (- s)]) @
           map (\<lambda>j. c_pow (q + real j) (- s)) [unat (i + 1) ..< unat n + 1])"
      by (rule step(1))
    then have n: "n \<noteq> - 1" by simp
    have u: "unat (i + 1) = unat i + 1" by (rule word_succ_unat[OF True n])
    have le: "unat i \<le> unat n" using True by (simp add: word_le_nat_alt)
    then have "[unat i ..< unat n + 1] = unat i # [unat i + 1 ..< unat n + 1]"
      by (simp add: upt_conv_Cons)
    with ih le show ?thesis by (simp add: u RealType_of_def del: upt_Suc)
  next
    case False
    then have n: "n \<noteq> - 1" by auto
    from False have lt: "unat n < unat i" by (simp add: word_le_nat_alt)
    from False step have "r = pdf" by simp
    with n lt show ?thesis by auto
  qed
qed

lemma zipf_table_distribution_returns:
  assumes "n \<noteq> - 1"
  shows "zipf_table_distribution n s q =
         Some \<lparr>t_pdf = Inr 0 # map (\<lambda>j. c_pow (q + real j) (- s)) [1 ..< unat n + 1],
               t_n = n, t_s = s, t_q = q,
               t_dist = Inr 0 # map (\<lambda>j. c_pow (q + real j) (- s)) [1 ..< unat n + 1]\<rparr>"
  using init_loop_returns[OF assms, of 1 s q "[Inr 0]"]
  by (simp add: zipf_table_distribution_def init_def)

lemma zipf_table_distribution_Some:
  assumes "zipf_table_distribution n s q = Some t"
  shows "n \<noteq> - 1"
    and "t_pdf t = Inr 0 # map (\<lambda>j. c_pow (q + real j) (- s)) [1 ..< unat n + 1]"
    and "t_dist t = t_pdf t" and "t_n t = n" and "t_s t = s" and "t_q t = q"
proof -
  from assms obtain r where r: "init_loop n s q 1 [Inr 0] = Some r"
    and t: "t = \<lparr>t_pdf = r, t_n = n, t_s = s, t_q = q, t_dist = r\<rparr>"
    by (auto simp: zipf_table_distribution_def init_def split: option.splits)
  from init_loop_Some[OF r] show "n \<noteq> - 1" by simp
  from init_loop_Some[OF r]
  show "t_pdf t = Inr 0 # map (\<lambda>j. c_pow (q + real j) (- s)) [1 ..< unat n + 1]"
    by (simp add: t)
  show "t_dist t = t_pdf t" "t_n t = n" "t_s t = s" "t_q t = q" by (simp_all add: t)
qed

lemma zipf_table_weights:
  assumes "zipf_table_distribution n s q = Some t" "1 \<le> i" "i \<le> unat n"
  shows "t_pdf t ! i = c_pow (q + real i) (- s)"
proof -
  note f = zipf_table_distribution_Some[OF assms(1)]
  from assms(2) obtain j where j: "i = Suc j" by (cases i) auto
  with assms(3) have "j < length [1 ..< unat n + 1]" by simp
  then have "map (\<lambda>j. c_pow (q + real j) (- s)) [1 ..< unat n + 1] ! j =
             c_pow (q + real ([1 ..< unat n + 1] ! j)) (- s)"
    by (rule nth_map)
  also have "[1 ..< unat n + 1] ! j = i" using assms(3) j by (simp add: nth_upt del: upt_Suc)
  finally show ?thesis by (simp add: f(2) j)
qed

subsection \<open>Checked evaluation: divisions in the sampler\<close>

lemma zipf_distribution_succeeds: "- 1/2 < q \<Longrightarrow> \<exists>z. zipf_distribution n s q = Inr z"
  by (simp add: zipf_distribution_def Let_def)

lemma fp_sub_no_div0:
  "a \<noteq> Inl Div_by_zero \<Longrightarrow> b \<noteq> Inl Div_by_zero \<Longrightarrow> fp_sub a b \<noteq> Inl Div_by_zero"
  unfolding fp_sub_def by (intro bindE_no_div0) simp_all

lemma h_no_div0: "h z x \<noteq> Inl Div_by_zero"
  by (simp add: h_def c_pow_no_div0)

lemma H_no_div0:
  assumes "zipf_distribution n s q = Inr z"
  shows "H z x \<noteq> Inl Div_by_zero"
proof (cases "spole z")
  case True
  then show ?thesis by (rule H_near_pole_no_div0)
next
  case False
  then have "oms z \<noteq> 0" using zipf_distribution_Inr[OF assms] epsilon_pos by auto
  then have "c_div w (oms z) \<noteq> Inl Div_by_zero" for w by (simp add: c_div_def)
  then show ?thesis using False unfolding H_def
    by (simp, intro bindE_no_div0 c_pow_no_div0) simp
qed

lemma H_inv_no_div0:
  assumes "zipf_distribution n s q = Inr z"
  shows "H_inv z y \<noteq> Inl Div_by_zero"
proof (cases "spole z")
  case True
  then show ?thesis by (rule H_inv_near_pole_no_div0)
next
  case False
  then have "1 - s \<noteq> 0" using zipf_distribution_Inr[OF assms] epsilon_pos by auto
  then have "rvs z = Inr (1 / (1 - s))"
    using False zipf_distribution_Inr[OF assms] by (simp add: c_div_def)
  then show ?thesis using False unfolding H_inv_def
    by (simp, intro bindE_no_div0 c_pow_no_div0) simp
qed

lemma members_no_div0:
  assumes "zipf_distribution n s q = Inr z"
  shows "H_x1 z \<noteq> Inl Div_by_zero" "H_n z \<noteq> Inl Div_by_zero" "cut z \<noteq> Inl Div_by_zero"
proof -
  note m = zipf_distribution_members[OF assms] and p = params_of_fields[OF assms]
  show 1: "H_x1 z \<noteq> Inl Div_by_zero"
    unfolding m(1) p by (intro fp_sub_no_div0 H_no_div0[OF assms] h_no_div0)
  show "H_n z \<noteq> Inl Div_by_zero"
    unfolding m(2) p by (rule H_no_div0[OF assms])
  show "cut z \<noteq> Inl Div_by_zero"
    unfolding m(3) p
    by (intro fp_sub_no_div0 bindE_no_div0 H_no_div0[OF assms] h_no_div0 H_inv_no_div0[OF assms])
       simp
qed

lemma iteration_no_div0:
  assumes "zipf_distribution n s q = Inr z"
  shows "zipf_iteration z c \<noteq> Inl Div_by_zero"
proof -
  note d = zipf_distribution_members(4)[OF assms] and m = members_no_div0[OF assms]
  have u: "uniform_call (z_dist z) c \<noteq> Inl Div_by_zero"
    unfolding uniform_call_def d by (simp, intro bindE_no_div0 m) simp
  have k: "IntType_of_int i \<noteq> Inl Div_by_zero" for i by (simp add: IntType_of_int_def)
  have tail: "bindE (fp_sub (H z X) (h z Y))
                 (\<lambda>t. if v \<ge> t then Inr (Some j) else Inr None) \<noteq> Inl Div_by_zero"
    for X Y v and j :: IntType
    by (intro bindE_no_div0 fp_sub_no_div0 H_no_div0[OF assms] h_no_div0) simp
  show ?thesis unfolding zipf_iteration_def
    by (intro bindE_no_div0 u k m H_inv_no_div0[OF assms]) (simp add: tail)
qed

lemma call_no_div0:
  assumes "zipf_distribution n s q = Inr z"
  shows "zipf_distribution_call z rng \<noteq> Some (Inl Div_by_zero)"
proof (induction rng)
  case Nil
  then show ?case by simp
next
  case (Cons c rng)
  then show ?case using iteration_no_div0[OF assms, of c]
    by (auto split: sum.splits option.splits)
qed

subsection \<open>A table\<close>

lemma table_of_square_law:
  "\<exists>t. zipf_table_distribution 2 2 0 = Some t \<and> t_dist t = t_pdf t \<and>
       t_pdf t = [Inr 0, Inr 1, Inr (1/4)]"
proof -
  have "(2 :: IntType) \<noteq> - 1" by simp
  from zipf_table_distribution_returns[OF this, of 2 0]
  show ?thesis by (simp add: c_pow_def powr_minus upt_rec power2_eq_square)
qed

subsection \<open>The members read by the member functions\<close>

lemma zd_H_dist [simp]: "zd_H A (z\<lparr>m_dist := d\<rparr>) = zd_H A z"
  by (rule ext) (simp add: zd_H_def)

lemma zd_h_dist [simp]: "zd_h A (z\<lparr>m_dist := d\<rparr>) = zd_h A z"
  by (rule ext) (simp add: zd_h_def)

lemma zd_H_inv_dist [simp]: "zd_H_inv A (z\<lparr>m_dist := d\<rparr>) = zd_H_inv A z"
  by (rule ext) (simp add: zd_H_inv_def)

lemma zd_H_members:
  "m_q z = m_q p \<Longrightarrow> m_oms z = m_oms p \<Longrightarrow> m_spole z = m_spole p \<Longrightarrow> zd_H A z = zd_H A p"
  by (rule ext) (simp add: zd_H_def)

lemma zd_h_members: "m_q z = m_q p \<Longrightarrow> m_s z = m_s p \<Longrightarrow> zd_h A z = zd_h A p"
  by (rule ext) (simp add: zd_h_def)

lemma zd_H_inv_members:
  "m_q z = m_q p \<Longrightarrow> m_oms z = m_oms p \<Longrightarrow> m_spole z = m_spole p \<Longrightarrow> m_rvs z = m_rvs p \<Longrightarrow>
   zd_H_inv A z = zd_H_inv A p"
  by (rule ext) (simp add: zd_H_inv_def)

subsection \<open>The constructor over the open arithmetic\<close>

lemma zd_first_members_fields:
  "m_n (zd_first_members A n s q) = n"
  "m_s (zd_first_members A n s q) = s"
  "m_q (zd_first_members A n s q) = q"
  "m_oms (zd_first_members A n s q) = d_sub A (d_lit A 1) s"
  "m_spole (zd_first_members A n s q) =
     d_lt A (d_unqualified_abs A (d_sub A (d_lit A 1) s)) (d_lit A epsilon)"
  "m_rvs (zd_first_members A n s q) =
     (if d_lt A (d_unqualified_abs A (d_sub A (d_lit A 1) s)) (d_lit A epsilon) then d_lit A 0
      else d_div A (d_lit A 1) (d_sub A (d_lit A 1) s))"
  by (simp_all add: zd_first_members_def Let_def)

lemma zd_construct_Inr:
  assumes "zd_construct A L n s q = Inr z"
  shows "\<not> d_ge A (d_neg A (d_lit A 0.5)) q"
    and "m_n z = n" and "m_s z = s" and "m_q z = q"
    and "m_oms z = m_oms (zd_first_members A n s q)"
    and "m_spole z = m_spole (zd_first_members A n s q)"
    and "m_rvs z = m_rvs (zd_first_members A n s q)"
    and "m_H_x1 z = d_sub A (zd_H A (zd_first_members A n s q) (d_lit A 1.5))
                            (zd_h A (zd_first_members A n s q) (d_lit A 1))"
    and "m_H_n z = zd_H A (zd_first_members A n s q) (d_add A (d_of_IntType A n) (d_lit A 0.5))"
    and "m_cut z = d_sub A (d_lit A 1)
                     (zd_H_inv A (zd_first_members A n s q)
                        (d_sub A (zd_H A (zd_first_members A n s q) (d_lit A 1.5))
                                 (zd_h A (zd_first_members A n s q) (d_lit A 1))))"
    and "m_dist z = uniform_new L (m_H_x1 z) (m_H_n z)"
  using assms
  by (auto simp: zd_construct_def Let_def zd_first_members_fields split: if_splits)

lemma zd_construct_functions:
  assumes "zd_construct A L n s q = Inr z"
  shows "zd_H A z = zd_H A (zd_first_members A n s q)"
    and "zd_h A z = zd_h A (zd_first_members A n s q)"
    and "zd_H_inv A z = zd_H_inv A (zd_first_members A n s q)"
  using zd_construct_Inr[OF assms]
  by (simp_all add: zd_H_members zd_h_members zd_H_inv_members zd_first_members_fields)

lemma zd_construct_succeeds:
  "\<not> d_ge A (d_neg A (d_lit A 0.5)) q \<Longrightarrow> \<exists>z. zd_construct A L n s q = Inr z"
  by (simp add: zd_construct_def Let_def)

subsection \<open>One pass of the loop\<close>

lemma zd_pass_drawn:
  assumes "uniform_draw L (m_dist z) g = (u, d', g')"
  shows "zd_pass A L z g =
     (if d_le A (d_sub A (d_of_IntType A (d_to_IntType A (d_round A (zd_H_inv A z u))))
                        (zd_H_inv A z u)) (m_cut z)
        \<or> d_ge A u (d_sub A (zd_H A z (d_add A
                      (d_of_IntType A (d_to_IntType A (d_round A (zd_H_inv A z u)))) (d_lit A 0.5)))
                    (zd_h A z (d_of_IntType A (d_to_IntType A (d_round A (zd_H_inv A z u))))))
      then Some (d_to_IntType A (d_round A (zd_H_inv A z u))) else None,
      z\<lparr>m_dist := d'\<rparr>, g')"
  using assms by (simp add: zd_pass_def Let_def)

lemma zd_pass_frame:
  assumes "zd_pass A L z g = (r, z', g')"
  shows "z' = z\<lparr>m_dist := m_dist z'\<rparr>"
    and "(m_dist z', g') = snd (uniform_draw L (m_dist z) g)"
proof -
  obtain u d1 g1 where u: "uniform_draw L (m_dist z) g = (u, d1, g1)"
    by (metis prod_cases3)
  from assms show "z' = z\<lparr>m_dist := m_dist z'\<rparr>"
    unfolding zd_pass_drawn[OF u] by auto
  from assms show "(m_dist z', g') = snd (uniform_draw L (m_dist z) g)"
    unfolding zd_pass_drawn[OF u] u by auto
qed

subsection \<open>The loop of \<open>operator()\<close>\<close>

lemma zd_call_imp_spec_draw:
  assumes "zd_call A L z g = Some r"
  shows "spec_draw A L z g (fst r) (fst (snd r)) (snd (snd r))"
  using assms
proof (induction A L z g r rule: zd_call.raw_induct[rotated 1, consumes 1, case_names step])
  case (step call A L z g r)
  obtain u d' g' where u: "uniform_draw L (m_dist z) g = (u, d', g')"
    by (metis prod_cases3)
  define x where "x = zd_H_inv A z u"
  define k where "k = d_to_IntType A (d_round A x)"
  note p = zd_pass_drawn[OF u, of A, folded x_def, folded k_def]
  show ?case
  proof (cases "d_le A (d_sub A (d_of_IntType A k) x) (m_cut z)")
    case True
    with step(2) p have "r = (k, z\<lparr>m_dist := d'\<rparr>, g')" by simp
    with spec_draw.fast_accept[OF u x_def k_def True] show ?thesis by simp
  next
    case fast: False
    show ?thesis
    proof (cases "d_ge A u (d_sub A (zd_H A z (d_add A (d_of_IntType A k) (d_lit A 0.5)))
                                   (zd_h A z (d_of_IntType A k)))")
      case True
      with step(2) p have "r = (k, z\<lparr>m_dist := d'\<rparr>, g')" by simp
      with spec_draw.squeeze_accept[OF u x_def k_def fast True] show ?thesis by simp
    next
      case False
      with step(2) p fast have "call A L (z\<lparr>m_dist := d'\<rparr>) g' = Some r" by simp
      from step(1)[OF this] spec_draw.reject[OF u x_def k_def fast False]
      show ?thesis by simp
    qed
  qed
qed

lemma spec_draw_imp_zd_call:
  assumes "spec_draw A L z g k z' g'"
  shows "zd_call A L z g = Some (k, z', g')"
  using assms
proof (induction rule: spec_draw.induct)
  case (fast_accept z g u d' g' x k)
  show ?case
    using fast_accept by (subst zd_call.simps) (simp add: zd_pass_drawn)
next
  case (squeeze_accept z g u d' g' x k)
  show ?case
    using squeeze_accept by (subst zd_call.simps) (simp add: zd_pass_drawn)
next
  case (reject z g u d' g' x k k' z'' g'')
  show ?case
    using reject by (subst zd_call.simps) (simp add: zd_pass_drawn)
qed

subsection \<open>What a call changes\<close>

lemma zd_call_frame:
  assumes "zd_call A L z g = Some r"
  shows "fst (snd r) = z\<lparr>m_dist := m_dist (fst (snd r))\<rparr>"
  using assms
proof (induction A L z g r rule: zd_call.raw_induct[rotated 1, consumes 1, case_names step])
  case (step call A L z g r)
  obtain o1 z1 g1 where p: "zd_pass A L z g = (o1, z1, g1)"
    by (metis prod_cases3)
  note f = zd_pass_frame(1)[OF p]
  show ?case
  proof (cases o1)
    case None
    with step(2) p have "call A L z1 g1 = Some r" by simp
    from step(1)[OF this] have "fst (snd r) = z1\<lparr>m_dist := m_dist (fst (snd r))\<rparr>" .
    then have "fst (snd r) = (z\<lparr>m_dist := m_dist z1\<rparr>)\<lparr>m_dist := m_dist (fst (snd r))\<rparr>"
      using f by simp
    then show ?thesis by simp
  next
    case (Some k)
    with step(2) p have "r = (k, z1, g1)" by simp
    with f show ?thesis by simp
  qed
qed

lemma zd_call_dist:
  assumes "zd_call A L z g = Some r"
    and "\<forall>d g0. fst (snd (uniform_draw L d g0)) = d"
  shows "m_dist (fst (snd r)) = m_dist z"
  using assms
proof (induction A L z g r rule: zd_call.raw_induct[rotated 1, consumes 1, case_names step])
  case (step call A L z g r)
  obtain o1 z1 g1 where p: "zd_pass A L z g = (o1, z1, g1)"
    by (metis prod_cases3)
  have "m_dist z1 = fst (snd (uniform_draw L (m_dist z) g))"
    using zd_pass_frame(2)[OF p] by (metis fst_conv)
  with step(3) have d: "m_dist z1 = m_dist z" by simp
  show ?case
  proof (cases o1)
    case None
    with step(2) p have "call A L z1 g1 = Some r" by simp
    from step(1)[OF this step(3)] d show ?thesis by simp
  next
    case (Some k)
    with step(2) p have "r = (k, z1, g1)" by simp
    with d show ?thesis by simp
  qed
qed

lemma zd_call_draws:
  assumes "zd_call A L z g = Some r"
    and "uniform_states L d0 (m_dist z)"
  shows "\<exists>d g0 u. uniform_states L d0 d \<and>
           uniform_draw L d g0 = (u, m_dist (fst (snd r)), snd (snd r)) \<and>
           fst r = d_to_IntType A (d_round A (zd_H_inv A z u))"
  using assms
proof (induction A L z g r rule: zd_call.raw_induct[rotated 1, consumes 1, case_names step])
  case (step call A L z g r)
  obtain u d' g' where u: "uniform_draw L (m_dist z) g = (u, d', g')"
    by (metis prod_cases3)
  note p = zd_pass_drawn[OF u, of A]
  show ?case
  proof (cases "fst (zd_pass A L z g)")
    case None
    with step(2) p have c: "call A L (z\<lparr>m_dist := d'\<rparr>) g' = Some r"
      by (simp split: if_splits)
    have "uniform_states L d0 (m_dist (z\<lparr>m_dist := d'\<rparr>))"
      using uniform_states.drawn[OF step(3) u] by simp
    from step(1)[OF c this] show ?thesis by simp
  next
    case (Some k)
    with step(2) p have "r = (d_to_IntType A (d_round A (zd_H_inv A z u)), z\<lparr>m_dist := d'\<rparr>, g')"
      by (simp split: if_splits)
    with u step(3) show ?thesis by auto
  qed
qed

subsection \<open>Evaluation in the IEEE arithmetic without rounding\<close>

lemma ieee_arithmetic_sel [simp]:
  "d_lit (ieee_arithmetic ov) = Fin"
  "d_add (ieee_arithmetic ov) = ieee_add"
  "d_sub (ieee_arithmetic ov) = ieee_sub"
  "d_mul (ieee_arithmetic ov) = ieee_mul"
  "d_div (ieee_arithmetic ov) = ieee_div"
  "d_neg (ieee_arithmetic ov) = ieee_neg"
  "d_lt (ieee_arithmetic ov) = ieee_lt"
  "d_gt (ieee_arithmetic ov) = (\<lambda>a b. ieee_lt b a)"
  "d_le (ieee_arithmetic ov) = ieee_le"
  "d_ge (ieee_arithmetic ov) = (\<lambda>a b. ieee_le b a)"
  "d_pow (ieee_arithmetic ov) = ieee_pow"
  "d_exp (ieee_arithmetic ov) = ieee_exp"
  "d_expm1 (ieee_arithmetic ov) = ieee_expm1"
  "d_log (ieee_arithmetic ov) = ieee_log"
  "d_log1p (ieee_arithmetic ov) = ieee_log1p"
  "d_round (ieee_arithmetic ov) = ieee_round"
  "d_abs (ieee_arithmetic ov) = ieee_abs"
  "d_unqualified_abs (ieee_arithmetic ov) = ieee_unqualified_abs ov"
  "d_to_IntType (ieee_arithmetic ov) = ieee_to_IntType"
  "d_of_IntType (ieee_arithmetic ov) = ieee_of_IntType"
  by (simp_all add: ieee_arithmetic_def)

lemma ieee_sub_Fin [simp]: "ieee_sub (Fin x) (Fin y) = Fin (x - y)"
  by (simp add: ieee_sub_def)

lemma ieee_pow_pos: "0 < x \<Longrightarrow> ieee_pow (Fin x) (Fin y) = Fin (x powr y)"
  by simp

lemma variate_library_sel [simp]:
  "uniform_new (variate_library A) a b = \<lparr>bound_a = a, bound_b = b\<rparr>"
  "uniform_draw (variate_library A) d (c # g) =
     (d_add A (d_mul A c (d_sub A (bound_b d) (bound_a d))) (bound_a d), d, g)"
  by (simp_all add: variate_library_def)

lemma variate_library_keeps_object:
  "fst (snd (uniform_draw (variate_library A) d g)) = d"
  by (simp add: variate_library_def)

lemma ieee_unqualified_abs_ge_one:
  "1 \<le> \<bar>x\<bar> \<Longrightarrow> \<bar>x\<bar> < 2 ^ 31 \<Longrightarrow>
   \<not> ieee_lt (ieee_unqualified_abs ov (Fin x)) (Fin epsilon)"
proof (cases ov)
  case Abs_floating
  assume "1 \<le> \<bar>x\<bar>"
  then show ?thesis using Abs_floating by (simp add: epsilon_def)
next
  case Abs_int
  assume x: "1 \<le> \<bar>x\<bar>" "\<bar>x\<bar> < 2 ^ 31"
  define m where "m = \<bar>int_of_RealType x\<bar>"
  have t: "m = \<lfloor>\<bar>x\<bar>\<rfloor>"
    unfolding m_def by (simp add: int_of_RealType_def ceiling_def abs_if) linarith
  have m1: "1 \<le> m" unfolding t using x(1) by linarith
  have m2: "m < 2 ^ 31" unfolding t using x(2) by (simp add: floor_less_iff)
  have "ieee_unqualified_abs ov (Fin x) = Fin (of_int m)"
    using Abs_int m2 by (simp add: m_def)
  moreover have "\<not> real_of_int m < epsilon" using m1 by (simp add: epsilon_def)
  ultimately show ?thesis by simp
qed

text \<open>The member functions in the generic regime, at finite arguments.\<close>

lemma ieee_H_generic:
  assumes "\<not> m_spole z" "m_q z = Fin q" "m_oms z = Fin r" "r \<noteq> 0" "0 < x + q"
  shows "zd_H (ieee_arithmetic ov) z (Fin x) = Fin ((x + q) powr r / r)"
  using assms by (simp add: zd_H_def)

lemma ieee_h_value:
  assumes "m_q z = Fin q" "m_s z = Fin s" "0 < x + q"
  shows "zd_h (ieee_arithmetic ov) z (Fin x) = Fin ((x + q) powr (- s))"
  using assms by (simp add: zd_h_def)

lemma ieee_H_inv_generic:
  assumes "\<not> m_spole z" "m_q z = Fin q" "m_oms z = Fin r" "m_rvs z = Fin v" "0 < y * r"
  shows "zd_H_inv (ieee_arithmetic ov) z (Fin y) = Fin ((y * r) powr v - q)"
proof -
  from assms(5) have "y \<noteq> 0" "r \<noteq> 0" by auto
  with assms show ?thesis by (simp add: zd_H_inv_def)
qed

text \<open>A pass that the fast test accepts, at finite values.\<close>

lemma ieee_fast_accept:
  assumes d: "m_dist z = \<lparr>bound_a = Fin a, bound_b = Fin b\<rparr>"
    and x: "zd_H_inv (ieee_arithmetic ov) z (Fin (c * (b - a) + a)) = Fin x"
    and k: "0 \<le> c_round x" "c_round x < 2 ^ 64"
    and ct: "m_cut z = Fin ct"
    and fast: "real (unat (word_of_int (c_round x) :: IntType)) - x \<le> ct"
  shows "zd_call (ieee_arithmetic ov) (variate_library (ieee_arithmetic ov)) z (Fin c # g) =
           Some (word_of_int (c_round x), z, g)"
proof -
  have u: "uniform_draw (variate_library (ieee_arithmetic ov)) (m_dist z) (Fin c # g) =
             (Fin (c * (b - a) + a), m_dist z, g)"
    by (simp add: d)
  have r: "ieee_to_IntType (ieee_round (Fin x)) = word_of_int (c_round x)"
    using k by simp
  have "zd_pass (ieee_arithmetic ov) (variate_library (ieee_arithmetic ov)) z (Fin c # g) =
          (Some (word_of_int (c_round x)), z, g)"
    unfolding zd_pass_drawn[OF u] using fast
    by (simp add: x r ct ieee_of_IntType_def del: ieee_round.simps ieee_to_IntType.simps)
  then show ?thesis by (subst zd_call.simps) simp
qed

subsection \<open>The sampler with \<open>N = 300\<close>, \<open>s = 2\<close>, \<open>q = 0\<close>\<close>

lemma square_law_first_members:
  "zd_first_members (ieee_arithmetic ov) 300 (Fin 2) (Fin 0) =
     \<lparr>m_n = 300, m_s = Fin 2, m_q = Fin 0, m_oms = Fin (- 1), m_spole = False,
      m_rvs = Fin (- 1)\<rparr>"
  using ieee_unqualified_abs_ge_one[of "- 1" ov]
  by (simp add: zd_first_members_def Let_def)

lemma square_law_object:
  assumes "zd_construct (ieee_arithmetic ov) (variate_library (ieee_arithmetic ov))
             300 (Fin 2) (Fin 0) = Inr z"
  shows "z = \<lparr>m_n = 300, m_s = Fin 2, m_q = Fin 0, m_oms = Fin (- 1), m_spole = False,
              m_rvs = Fin (- 1), m_H_x1 = Fin (- (5/3)), m_H_n = Fin (- (2/601)),
              m_cut = Fin (2/5),
              m_dist = \<lparr>bound_a = Fin (- (5/3)), bound_b = Fin (- (2/601))\<rparr>\<rparr>"
proof -
  let ?A = "ieee_arithmetic ov"
  let ?p = "zd_first_members ?A 300 (Fin 2) (Fin 0)"
  note p = square_law_first_members[of ov]
  have H1: "zd_H ?A ?p (Fin (3/2)) = Fin (- (2/3))"
    by (subst ieee_H_generic[where q = 0 and r = "- 1"]) (simp_all add: p powr_minus)
  have h1: "zd_h ?A ?p (Fin 1) = Fin 1"
    by (subst ieee_h_value[where q = 0 and s = 2]) (simp_all add: p)
  have Hn: "zd_H ?A ?p (Fin (601/2)) = Fin (- (2/601))"
    by (subst ieee_H_generic[where q = 0 and r = "- 1"]) (simp_all add: p powr_minus)
  have Hi: "zd_H_inv ?A ?p (Fin (- (5/3))) = Fin (3/5)"
    by (subst ieee_H_inv_generic[where q = 0 and r = "- 1" and v = "- 1"])
      (simp_all add: p powr_minus)
  have n: "ieee_add (ieee_of_IntType 300) (Fin (1/2)) = Fin (601/2)"
    by (simp add: ieee_of_IntType_def)
  note f = zd_construct_Inr[OF assms]
  have a: "m_H_x1 z = Fin (- (5/3))" using f(8) by (simp add: H1 h1)
  have b: "m_H_n z = Fin (- (2/601))" using f(9) by (simp add: n Hn)
  have c: "m_cut z = Fin (2/5)" using f(10) by (simp add: H1 h1 Hi)
  have d: "m_dist z = \<lparr>bound_a = Fin (- (5/3)), bound_b = Fin (- (2/601))\<rparr>"
    using f(11) by (simp add: a b)
  show ?thesis
    using f(2-7) a b c d by (cases z) (simp add: p)
qed

lemma square_law_draw:
  assumes "zd_construct (ieee_arithmetic ov) (variate_library (ieee_arithmetic ov))
             300 (Fin 2) (Fin 0) = Inr z"
  shows "zd_call (ieee_arithmetic ov) (variate_library (ieee_arithmetic ov)) z (Fin 0 # g) =
           Some (1, z, g)"
proof -
  note o = square_law_object[OF assms]
  have r: "c_round (3/5) = 1" by (simp add: c_round_def floor_eq_iff)
  have x: "zd_H_inv (ieee_arithmetic ov) z (Fin (0 * (- (2/601) - - (5/3)) + - (5/3))) = Fin (3/5)"
    by (subst o, subst ieee_H_inv_generic[where q = 0 and r = "- 1" and v = "- 1"])
      (simp_all add: powr_minus)
  have d: "m_dist z = \<lparr>bound_a = Fin (- (5/3)), bound_b = Fin (- (2/601))\<rparr>"
    and ct: "m_cut z = Fin (2/5)"
    by (subst o, simp)+
  have "zd_call (ieee_arithmetic ov) (variate_library (ieee_arithmetic ov)) z (Fin 0 # g) =
          Some (word_of_int (c_round (3/5)), z, g)"
    by (rule ieee_fast_accept[OF d x _ _ ct]) (simp_all add: r)
  then show ?thesis by (simp add: r)
qed

subsection \<open>The sampler with \<open>N = 8\<close>, \<open>s = -1/2\<close>, \<open>q = -15/64\<close>\<close>

lemma powr_81_64: "(81/64 :: real) powr (3/2) = 729/512"
proof -
  have e: "(81/64 :: real) = (9/8) powr 2" by (simp add: power2_eq_square)
  have "(81/64 :: real) powr (3/2) = ((9/8) powr 2) powr (3/2)" by (simp only: e[symmetric])
  also have "\<dots> = (9/8) powr 3" by (simp only: powr_powr) simp
  also have "\<dots> = 729/512" by (simp add: power3_eq_cube)
  finally show ?thesis .
qed

lemma powr_529_64: "(529/64 :: real) powr (3/2) = 12167/512"
proof -
  have e: "(529/64 :: real) = (23/8) powr 2" by (simp add: power2_eq_square)
  have "(529/64 :: real) powr (3/2) = ((23/8) powr 2) powr (3/2)" by (simp only: e[symmetric])
  also have "\<dots> = (23/8) powr 3" by (simp only: powr_powr) simp
  also have "\<dots> = 12167/512" by (simp add: power3_eq_cube)
  finally show ?thesis .
qed

lemma powr_49_64: "(49/64 :: real) powr (1/2) = 7/8"
proof -
  have e: "(49/64 :: real) = (7/8) powr 2" by (simp add: power2_eq_square)
  have "(49/64 :: real) powr (1/2) = ((7/8) powr 2) powr (1/2)" by (simp only: e[symmetric])
  also have "\<dots> = (7/8) powr 1" by (simp only: powr_powr) simp
  also have "\<dots> = 7/8" by simp
  finally show ?thesis .
qed

lemma powr_two_thirds_less:
  fixes y w :: real
  assumes "0 < y" "0 \<le> w" "y\<^sup>2 < w ^ 3"
  shows "y powr (2/3) < w"
proof -
  define t where "t = y powr (2/3)"
  have t0: "0 < t" using assms(1) by (simp add: t_def)
  have "t ^ 3 = t powr 3" using t0 by simp
  also have "\<dots> = y powr 2" unfolding t_def by (simp only: powr_powr) simp
  also have "\<dots> = y\<^sup>2" using assms(1) by simp
  finally have "t ^ 3 < w ^ 3" using assms(3) by simp
  then have "t < w" using assms(2) by (rule power_less_imp_less_base)
  then show ?thesis by (simp add: t_def)
qed

lemma negative_exponent_first_members:
  "zd_first_members (ieee_arithmetic ov) 8 (Fin (- (1/2))) (Fin (- (15/64))) =
     \<lparr>m_n = 8, m_s = Fin (- (1/2)), m_q = Fin (- (15/64)), m_oms = Fin (3/2), m_spole = False,
      m_rvs = Fin (2/3)\<rparr>"
  using ieee_unqualified_abs_ge_one[of "3/2" ov]
  by (simp add: zd_first_members_def Let_def)

text \<open>
  \<open>H_x1 = 19/256\<close>, \<open>H_n = 12167/768\<close>, and \<open>cut = 1 - x0\<close> with
  \<open>x0 = H_inv(H_x1) = (57/512)^(2/3) + 15/64\<close>.
\<close>

lemma negative_exponent_object:
  assumes "zd_construct (ieee_arithmetic ov) (variate_library (ieee_arithmetic ov))
             8 (Fin (- (1/2))) (Fin (- (15/64))) = Inr z"
  shows "z = \<lparr>m_n = 8, m_s = Fin (- (1/2)), m_q = Fin (- (15/64)), m_oms = Fin (3/2),
              m_spole = False, m_rvs = Fin (2/3), m_H_x1 = Fin (19/256),
              m_H_n = Fin (12167/768),
              m_cut = Fin (1 - ((57/512) powr (2/3) + 15/64)),
              m_dist = \<lparr>bound_a = Fin (19/256), bound_b = Fin (12167/768)\<rparr>\<rparr>"
proof -
  let ?A = "ieee_arithmetic ov"
  let ?p = "zd_first_members ?A 8 (Fin (- (1/2))) (Fin (- (15/64)))"
  note p = negative_exponent_first_members[of ov]
  have H1: "zd_H ?A ?p (Fin (3/2)) = Fin (243/256)"
    by (subst ieee_H_generic[where q = "- (15/64)" and r = "3/2"]) (simp_all add: p powr_81_64)
  have h1: "zd_h ?A ?p (Fin 1) = Fin (7/8)"
    by (subst ieee_h_value[where q = "- (15/64)" and s = "- (1/2)"])
      (simp_all add: p powr_49_64)
  have Hn: "zd_H ?A ?p (Fin (17/2)) = Fin (12167/768)"
    by (subst ieee_H_generic[where q = "- (15/64)" and r = "3/2"]) (simp_all add: p powr_529_64)
  have Hi: "zd_H_inv ?A ?p (Fin (19/256)) = Fin ((57/512) powr (2/3) + 15/64)"
    by (subst ieee_H_inv_generic[where q = "- (15/64)" and r = "3/2" and v = "2/3"])
      (simp_all add: p)
  have n: "ieee_add (ieee_of_IntType 8) (Fin (1/2)) = Fin (17/2)"
    by (simp add: ieee_of_IntType_def)
  note f = zd_construct_Inr[OF assms]
  have a: "m_H_x1 z = Fin (19/256)" using f(8) by (simp add: H1 h1)
  have b: "m_H_n z = Fin (12167/768)" using f(9) by (simp add: n Hn)
  have c: "m_cut z = Fin (1 - ((57/512) powr (2/3) + 15/64))"
    using f(10) by (simp add: H1 h1 Hi)
  have d: "m_dist z = \<lparr>bound_a = Fin (19/256), bound_b = Fin (12167/768)\<rparr>"
    using f(11) by (simp add: a b)
  show ?thesis
    using f(2-7) a b c d by (cases z) (simp add: p)
qed

text \<open>
  The variate \<open>1/1000\<close> gives \<open>u = 6911/76800\<close> and \<open>x = (6911/51200)^(2/3) + 15/64\<close>, which
  lies in \<open>[0, 1/2)\<close>, as does \<open>x0\<close>; so \<open>k = 0\<close> and the fast test \<open>0 - x \<le> 1 - x0\<close> holds.
\<close>

lemma negative_exponent_draw:
  assumes "zd_construct (ieee_arithmetic ov) (variate_library (ieee_arithmetic ov))
             8 (Fin (- (1/2))) (Fin (- (15/64))) = Inr z"
  shows "zd_call (ieee_arithmetic ov) (variate_library (ieee_arithmetic ov)) z (Fin (1/1000) # g) =
           Some (0, z, g)"
proof -
  note o = negative_exponent_object[OF assms]
  define x0 :: real where "x0 = (57/512) powr (2/3) + 15/64"
  define x :: real where "x = (6911/51200) powr (2/3) + 15/64"
  have d: "m_dist z = \<lparr>bound_a = Fin (19/256), bound_b = Fin (12167/768)\<rparr>"
    and ct: "m_cut z = Fin (1 - x0)"
    unfolding x0_def by (subst o, simp)+
  have u: "1/1000 * (12167/768 - 19/256) + 19/256 = (6911/76800 :: real)" by simp
  have xv: "zd_H_inv (ieee_arithmetic ov) z (Fin (1/1000 * (12167/768 - 19/256) + 19/256)) = Fin x"
    unfolding u x_def
    by (subst o, subst ieee_H_inv_generic[where q = "- (15/64)" and r = "3/2" and v = "2/3"])
      simp_all
  have "(57/512 :: real) powr (2/3) < 17/64"
    by (rule powr_two_thirds_less) (simp_all add: power2_eq_square power3_eq_cube)
  then have x0r: "x0 < 1/2" by (simp add: x0_def)
  have "(6911/51200 :: real) powr (2/3) < 17/64"
    by (rule powr_two_thirds_less) (simp_all add: power2_eq_square power3_eq_cube)
  moreover have "0 \<le> (6911/51200 :: real) powr (2/3)" by simp
  ultimately have xr: "0 \<le> x" "x < 1/2" by (simp_all add: x_def)
  then have r: "c_round x = 0" by (simp add: c_round_def floor_eq_iff)
  have "zd_call (ieee_arithmetic ov) (variate_library (ieee_arithmetic ov)) z (Fin (1/1000) # g) =
          Some (word_of_int (c_round x), z, g)"
    by (rule ieee_fast_accept[OF d xv _ _ ct]) (use xr x0r in \<open>simp_all add: r\<close>)
  then show ?thesis by (simp add: r)
qed

lemma negative_exponent_call:
  "zd_construct_and_call (ieee_arithmetic ov) (variate_library (ieee_arithmetic ov))
     8 (Fin (- (1/2))) (Fin (- (15/64))) [Fin (1/1000)] = Some (Inr 0)"
proof -
  have "\<exists>z. zd_construct (ieee_arithmetic ov) (variate_library (ieee_arithmetic ov))
             8 (Fin (- (1/2))) (Fin (- (15/64))) = Inr z"
    by (rule zd_construct_succeeds) simp
  then obtain z where c: "zd_construct (ieee_arithmetic ov) (variate_library (ieee_arithmetic ov))
             8 (Fin (- (1/2))) (Fin (- (15/64))) = Inr z" ..
  show ?thesis
    unfolding zd_construct_and_call_def c sum.case negative_exponent_draw[OF c] by simp
qed

subsection \<open>The sampler with \<open>N = 300\<close>, \<open>s = 3/2\<close>, \<open>q = 0\<close>\<close>

lemma ln_4: "ln (4 :: real) = 2 * ln 2"
proof -
  have "ln (4 :: real) = ln (2 ^ 2)" by simp
  also have "\<dots> = 2 * ln 2" by (simp only: ln_realpow)
  finally show ?thesis .
qed

lemma ln_2_bound: "(1/2 :: real) \<le> ln 2"
proof -
  have "ln (1 + (- (1/2)) :: real) \<le> - (1/2)"
    by (rule ln_add_one_self_le_self2) simp
  moreover have "ln (1/2 :: real) = - ln 2" by (simp add: ln_div)
  ultimately show ?thesis by simp
qed

lemma exp_minus_ln_2: "exp (- ln (2 :: real)) = 1/2"
  by (simp add: exp_minus inverse_eq_divide)

lemma exp_minus_2_ln: "exp (- (2 * ln (3/2 :: real))) = 4/9"
proof -
  have "exp (2 * ln (3/2 :: real)) = (exp (ln (3/2))) ^ 2"
    by (metis exp_of_nat_mult of_nat_numeral)
  also have "\<dots> = 9/4" by (simp add: power2_eq_square)
  finally have e: "exp (2 * ln (3/2 :: real)) = 9/4" .
  have "exp (- (2 * ln (3/2 :: real))) = inverse (9/4)" by (simp only: exp_minus e)
  then show ?thesis by simp
qed

text \<open>
  With \<open>int abs(int)\<close>, \<open>abs(1 - 3/2)\<close> is \<open>\<bar>(int)(-0.5)\<bar> = 0\<close>, which is below the
  tolerance: the near-pole branch is taken.
\<close>

lemma three_halves_int_abs_members:
  "zd_first_members (ieee_arithmetic Abs_int) 300 (Fin (3/2)) (Fin 0) =
     \<lparr>m_n = 300, m_s = Fin (3/2), m_q = Fin 0, m_oms = Fin (- (1/2)), m_spole = True,
      m_rvs = Fin 0\<rparr>"
proof -
  have "\<lceil>- (1/2) :: real\<rceil> = 0" by (simp add: ceiling_eq_iff)
  then show ?thesis
    by (simp add: zd_first_members_def Let_def int_of_RealType_def epsilon_def)
qed

lemma three_halves_floating_abs_members:
  "zd_first_members (ieee_arithmetic Abs_floating) 300 (Fin (3/2)) (Fin 0) =
     \<lparr>m_n = 300, m_s = Fin (3/2), m_q = Fin 0, m_oms = Fin (- (1/2)), m_spole = False,
      m_rvs = Fin (- 2)\<rparr>"
  by (simp add: zd_first_members_def Let_def epsilon_def)

lemma three_halves_int_abs_H:
  "zd_H (ieee_arithmetic Abs_int)
     (zd_first_members (ieee_arithmetic Abs_int) 300 (Fin (3/2)) (Fin 0)) (Fin 4) = Fin 1"
proof -
  have l: "0 < ln (2 :: real)" "ln (2 :: real) \<noteq> 0" "epsilon < ln (2 :: real)"
    using ln_2_bound by (simp_all add: epsilon_def)
  have t: "- (1/2) * ln (4 :: real) = - ln 2" by (simp add: ln_4)
  have "zd_expxm1bx (ieee_arithmetic Abs_int) (Fin (- ln 2)) = Fin ((exp (- ln 2) - 1) / (- ln 2))"
    using l by (simp add: zd_expxm1bx_def)
  also have "\<dots> = Fin (1 / (2 * ln 2))"
    using l by (simp only: exp_minus_ln_2) (simp add: field_simps)
  finally have e: "zd_expxm1bx (ieee_arithmetic Abs_int) (Fin (- ln 2)) = Fin (1 / (2 * ln 2))" .
  show ?thesis
    using l by (simp add: zd_H_def three_halves_int_abs_members Let_def ln_4 e)
qed

lemma three_halves_int_abs_H_inv:
  "zd_H_inv (ieee_arithmetic Abs_int)
     (zd_first_members (ieee_arithmetic Abs_int) 300 (Fin (3/2)) (Fin 0)) (Fin (- 1)) = Fin (4/9)"
proof -
  have "zd_log1pxbx (ieee_arithmetic Abs_int) (Fin (1/2)) = Fin (2 * ln (3/2))"
    by (simp add: zd_log1pxbx_def epsilon_def)
  then show ?thesis
    by (simp add: zd_H_inv_def three_halves_int_abs_members exp_minus_2_ln)
qed

lemma three_halves_floating_abs_H:
  "zd_H (ieee_arithmetic Abs_floating)
     (zd_first_members (ieee_arithmetic Abs_floating) 300 (Fin (3/2)) (Fin 0)) (Fin 4) = Fin (- 1)"
proof -
  have "(4 :: real) powr (- (1/2)) = 1/2"
    by (simp add: powr_minus powr_half_sqrt inverse_eq_divide)
  then show ?thesis
    by (subst ieee_H_generic[where q = 0 and r = "- (1/2)"])
      (simp_all add: three_halves_floating_abs_members)
qed

lemma three_halves_floating_abs_H_inv:
  "zd_H_inv (ieee_arithmetic Abs_floating)
     (zd_first_members (ieee_arithmetic Abs_floating) 300 (Fin (3/2)) (Fin 0)) (Fin (- 1)) = Fin 4"
proof -
  have "(1/2 :: real) powr (- 2) = 4"
    by (simp add: powr_minus power2_eq_square)
  then show ?thesis
    by (subst ieee_H_inv_generic[where q = 0 and r = "- (1/2)" and v = "- 2"])
      (simp_all add: three_halves_floating_abs_members)
qed

lemma spec_three_halves:
  "spec_H (3/2) 0 4 = - 1" "spec_H_inv (3/2) 0 (- 1) = 4"
proof -
  have a: "(4 :: real) powr (- (1/2)) = 1/2"
    by (simp add: powr_minus powr_half_sqrt inverse_eq_divide)
  have b: "(1/2 :: real) powr (- 2) = 4"
    by (simp add: powr_minus power2_eq_square)
  show "spec_H (3/2) 0 4 = - 1" by (simp add: spec_H_def epsilon_def a)
  show "spec_H_inv (3/2) 0 (- 1) = 4" by (simp add: spec_H_inv_def epsilon_def b)
qed

subsection \<open>The sampler with \<open>N = 8\<close>, \<open>s = -1/2\<close>, \<open>q = -499/1000\<close>\<close>

text \<open>A pass that fails the fast test against a NaN cutoff and passes the squeeze test.\<close>

lemma ieee_squeeze_accept_nan_cut:
  assumes d: "m_dist z = \<lparr>bound_a = Fin a, bound_b = Fin b\<rparr>"
    and x: "zd_H_inv (ieee_arithmetic ov) z (Fin (c * (b - a) + a)) = Fin x"
    and k: "0 \<le> c_round x" "c_round x < 2 ^ 64"
    and ct: "m_cut z = NaN"
    and Hk: "zd_H (ieee_arithmetic ov) z
               (Fin (real (unat (word_of_int (c_round x) :: IntType)) + 1/2)) = Fin Hk"
    and hk: "zd_h (ieee_arithmetic ov) z
               (Fin (real (unat (word_of_int (c_round x) :: IntType)))) = Fin hk"
    and squeeze: "Hk - hk \<le> c * (b - a) + a"
  shows "zd_call (ieee_arithmetic ov) (variate_library (ieee_arithmetic ov)) z (Fin c # g) =
           Some (word_of_int (c_round x), z, g)"
proof -
  have u: "uniform_draw (variate_library (ieee_arithmetic ov)) (m_dist z) (Fin c # g) =
             (Fin (c * (b - a) + a), m_dist z, g)"
    by (simp add: d)
  have r: "ieee_to_IntType (ieee_round (Fin x)) = word_of_int (c_round x)"
    using k by simp
  have "zd_pass (ieee_arithmetic ov) (variate_library (ieee_arithmetic ov)) z (Fin c # g) =
          (Some (word_of_int (c_round x)), z, g)"
    unfolding zd_pass_drawn[OF u] using squeeze
    by (simp add: x r ct Hk hk ieee_of_IntType_def
          del: ieee_round.simps ieee_to_IntType.simps of_nat_unat)
  then show ?thesis by (subst zd_call.simps) simp
qed

lemma powr_three_halves_le:
  fixes y w :: real
  assumes "0 < y" "0 \<le> w" "y ^ 3 \<le> w\<^sup>2"
  shows "y powr (3/2) \<le> w"
proof -
  define t where "t = y powr (3/2)"
  have t0: "0 < t" using assms(1) by (simp add: t_def)
  have "t\<^sup>2 = t powr 2" using t0 by simp
  also have "\<dots> = y powr 3" unfolding t_def by (simp only: powr_powr) simp
  also have "\<dots> = y ^ 3" using assms(1) by simp
  finally have "t\<^sup>2 \<le> w\<^sup>2" using assms(3) by simp
  then have "t \<le> w" using assms(2) by (rule power2_le_imp_le)
  then show ?thesis by (simp add: t_def)
qed

lemma powr_three_halves_ge:
  fixes y w :: real
  assumes "0 < y" "w\<^sup>2 \<le> y ^ 3"
  shows "w \<le> y powr (3/2)"
proof -
  define t where "t = y powr (3/2)"
  have t0: "0 < t" using assms(1) by (simp add: t_def)
  have "t\<^sup>2 = t powr 2" using t0 by simp
  also have "\<dots> = y powr 3" unfolding t_def by (simp only: powr_powr) simp
  also have "\<dots> = y ^ 3" using assms(1) by simp
  finally have "w\<^sup>2 \<le> t\<^sup>2" using assms(2) by simp
  then have "w \<le> t" by (rule power2_le_imp_le) (use t0 in simp)
  then show ?thesis by (simp add: t_def)
qed

lemma powr_half_le:
  fixes y w :: real
  assumes "0 < y" "0 \<le> w" "y \<le> w\<^sup>2"
  shows "y powr (1/2) \<le> w"
  using assms by (simp add: powr_half_sqrt real_le_lsqrt)

lemma powr_half_ge:
  fixes y w :: real
  assumes "0 < y" "w\<^sup>2 \<le> y"
  shows "w \<le> y powr (1/2)"
  using assms by (simp add: powr_half_sqrt real_le_rsqrt)

lemma powr_two_thirds_ge:
  fixes y w :: real
  assumes "0 < y" "w ^ 3 \<le> y\<^sup>2"
  shows "w \<le> y powr (2/3)"
proof -
  define t where "t = y powr (2/3)"
  have t0: "0 < t" using assms(1) by (simp add: t_def)
  have "t ^ 3 = t powr 3" using t0 by simp
  also have "\<dots> = y powr 2" unfolding t_def by (simp only: powr_powr) simp
  also have "\<dots> = y\<^sup>2" using assms(1) by simp
  finally have "w ^ 3 \<le> t ^ 3" using assms(2) by simp
  then have "w \<le> t" by (rule power_le_imp_le_base[of w 2 t, simplified]) (use t0 in simp)
  then show ?thesis by (simp add: t_def)
qed

lemma nan_cut_first_members:
  "zd_first_members (ieee_arithmetic ov) 8 (Fin (- (1/2))) (Fin (- (499/1000))) =
     \<lparr>m_n = 8, m_s = Fin (- (1/2)), m_q = Fin (- (499/1000)), m_oms = Fin (3/2),
      m_spole = False, m_rvs = Fin (2/3)\<rparr>"
  using ieee_unqualified_abs_ge_one[of "3/2" ov]
  by (simp add: zd_first_members_def Let_def)

text \<open>
  \<open>H(1.5) - h(1)\<close> is negative here (about \<open>-0.04\<close>), so \<open>H_inv\<close> of it raises a negative
  base to the power \<open>2/3\<close>: the cutoff is NaN.
\<close>

lemma nan_cut_object:
  assumes "zd_construct (ieee_arithmetic ov) (variate_library (ieee_arithmetic ov))
             8 (Fin (- (1/2))) (Fin (- (499/1000))) = Inr z"
  shows "z = \<lparr>m_n = 8, m_s = Fin (- (1/2)), m_q = Fin (- (499/1000)), m_oms = Fin (3/2),
              m_spole = False, m_rvs = Fin (2/3),
              m_H_x1 = Fin ((1001/1000) powr (3/2) / (3/2) - (501/1000) powr (1/2)),
              m_H_n = Fin ((8001/1000) powr (3/2) / (3/2)),
              m_cut = NaN,
              m_dist = \<lparr>bound_a = Fin ((1001/1000) powr (3/2) / (3/2) - (501/1000) powr (1/2)),
                        bound_b = Fin ((8001/1000) powr (3/2) / (3/2))\<rparr>\<rparr>"
proof -
  let ?A = "ieee_arithmetic ov"
  let ?p = "zd_first_members ?A 8 (Fin (- (1/2))) (Fin (- (499/1000)))"
  note p = nan_cut_first_members[of ov]
  have H1: "zd_H ?A ?p (Fin (3/2)) = Fin ((1001/1000) powr (3/2) / (3/2))"
    by (subst ieee_H_generic[where q = "- (499/1000)" and r = "3/2"]) (simp_all add: p)
  have h1: "zd_h ?A ?p (Fin 1) = Fin ((501/1000) powr (1/2))"
    by (subst ieee_h_value[where q = "- (499/1000)" and s = "- (1/2)"]) (simp_all add: p)
  have Hn: "zd_H ?A ?p (Fin (17/2)) = Fin ((8001/1000) powr (3/2) / (3/2))"
    by (subst ieee_H_generic[where q = "- (499/1000)" and r = "3/2"]) (simp_all add: p)
  define a :: real where "a = (1001/1000) powr (3/2) / (3/2) - (501/1000) powr (1/2)"
  have "(1001/1000 :: real) powr (3/2) \<le> 1002/1000"
    by (rule powr_three_halves_le) (simp_all add: power2_eq_square power3_eq_cube)
  moreover have "(7/10 :: real) \<le> (501/1000) powr (1/2)"
    by (rule powr_half_ge) (simp_all add: power2_eq_square)
  moreover have "a = 2/3 * (1001/1000) powr (3/2) - (501/1000) powr (1/2)"
    by (simp add: a_def)
  ultimately have neg: "a < 0" by linarith
  have sub: "ieee_sub (zd_H ?A ?p (Fin (3/2))) (zd_h ?A ?p (Fin 1)) = Fin a"
    unfolding H1 h1 a_def by simp
  have "ieee_pow (Fin (a * (3/2))) (Fin (2/3)) = NaN"
  proof -
    have "a * (3/2) < 0" using neg by simp
    moreover have "(2/3 :: real) \<noteq> of_int \<lfloor>2/3 :: real\<rfloor>" by simp
    ultimately show ?thesis by (simp del: times_divide_eq_right)
  qed
  then have Hi: "zd_H_inv ?A ?p (Fin a) = NaN"
    by (simp add: zd_H_inv_def p ieee_sub_def del: ieee_sub_Fin times_divide_eq_right)
  have n: "ieee_add (ieee_of_IntType 8) (Fin (1/2)) = Fin (17/2)"
    by (simp add: ieee_of_IntType_def)
  note f = zd_construct_Inr[OF assms]
  have a: "m_H_x1 z = Fin a"
    using f(8) by (simp add: sub)
  have "m_H_n z = zd_H ?A ?p (Fin (17/2))"
    using f(9) by (simp add: n)
  then have b: "m_H_n z = Fin ((8001/1000) powr (3/2) / (3/2))"
    by (simp only: Hn)
  have "m_cut z = ieee_sub (Fin 1) (zd_H_inv ?A ?p (Fin a))"
    using f(10) by (simp add: sub)
  then have c: "m_cut z = NaN" by (simp add: Hi ieee_sub_def)
  have d: "m_dist z = \<lparr>bound_a = Fin a, bound_b = Fin ((8001/1000) powr (3/2) / (3/2))\<rparr>"
    using f(11) by (simp only: a b variate_library_sel)
  show ?thesis
    unfolding a_def[symmetric]
    using f(2-7) a b c d by (cases z) (simp add: p del: times_divide_eq_right)
qed

text \<open>
  The variate \<open>1/2\<close> gives \<open>u\<close> about \<open>7.52\<close> and \<open>x = H_inv(u)\<close> about \<open>5.53\<close>, so \<open>k = 6\<close>; the
  fast test \<open>k - x \<le> cut\<close> is false, its right operand being NaN, and
  \<open>H(6.5) - h(6)\<close> is about \<open>7.45\<close>, so the squeeze test returns 6.
\<close>

lemma nan_cut_draw:
  assumes "zd_construct (ieee_arithmetic ov) (variate_library (ieee_arithmetic ov))
             8 (Fin (- (1/2))) (Fin (- (499/1000))) = Inr z"
  shows "zd_call (ieee_arithmetic ov) (variate_library (ieee_arithmetic ov)) z (Fin (1/2) # g) =
           Some (6, z, g)"
proof -
  let ?A = "ieee_arithmetic ov"
  note o = nan_cut_object[OF assms]
  define a :: real where "a = (1001/1000) powr (3/2) / (3/2) - (501/1000) powr (1/2)"
  define b :: real where "b = (8001/1000) powr (3/2) / (3/2)"
  define u :: real where "u = 1/2 * (b - a) + a"
  define x :: real where "x = (u * (3/2)) powr (2/3) + 499/1000"
  have A: "(1 :: real) \<le> (1001/1000) powr (3/2)" "(1001/1000 :: real) powr (3/2) \<le> 1002/1000"
    by (rule powr_three_halves_ge powr_three_halves_le;
        simp add: power2_eq_square power3_eq_cube)+
  have B: "(7/10 :: real) \<le> (501/1000) powr (1/2)" "(501/1000 :: real) powr (1/2) \<le> 71/100"
    by (rule powr_half_ge powr_half_le; simp add: power2_eq_square)+
  have C: "(2263/100 :: real) \<le> (8001/1000) powr (3/2)"
    "(8001/1000 :: real) powr (3/2) \<le> 2264/100"
    by (rule powr_three_halves_ge powr_three_halves_le;
        simp add: power2_eq_square power3_eq_cube)+
  have "u = 1/3 * (8001/1000) powr (3/2) + 1/3 * (1001/1000) powr (3/2)
              - 1/2 * (501/1000) powr (1/2)"
    by (simp add: u_def a_def b_def field_simps)
  with A B C have ub: "752/100 \<le> u" "u \<le> 754/100" by linarith+
  have d: "m_dist z = \<lparr>bound_a = Fin a, bound_b = Fin b\<rparr>" and ct: "m_cut z = NaN"
    unfolding a_def b_def by (subst o, simp)+
  have xv: "zd_H_inv ?A z (Fin (1/2 * (b - a) + a)) = Fin x"
    unfolding u_def[symmetric] x_def
    by (subst o, subst ieee_H_inv_generic[where q = "- (499/1000)" and r = "3/2" and v = "2/3"])
      (use ub in simp_all)
  have "(5001/1000 :: real) \<le> (u * (3/2)) powr (2/3)"
  proof (rule powr_two_thirds_ge)
    show "0 < u * (3/2)" using ub by simp
    have "(5001/1000 :: real) ^ 3 \<le> (752/100 * (3/2))\<^sup>2"
      by (simp add: power2_eq_square power3_eq_cube)
    also have "\<dots> \<le> (u * (3/2))\<^sup>2"
      by (rule power_mono) (use ub in simp_all)
    finally show "(5001/1000) ^ 3 \<le> (u * (3/2))\<^sup>2" .
  qed
  moreover have "(u * (3/2)) powr (2/3) < 6001/1000"
  proof (rule powr_two_thirds_less)
    show "0 < u * (3/2)" using ub by simp
    show "(0 :: real) \<le> 6001/1000" by simp
    have "(u * (3/2))\<^sup>2 \<le> (754/100 * (3/2))\<^sup>2"
      by (rule power_mono) (use ub in simp_all)
    also have "\<dots> < (6001/1000 :: real) ^ 3" by (simp add: power2_eq_square power3_eq_cube)
    finally show "(u * (3/2))\<^sup>2 < (6001/1000) ^ 3" .
  qed
  ultimately have xr: "11/2 \<le> x" "x < 13/2" by (simp_all add: x_def)
  then have r: "c_round x = 6" by (simp add: c_round_def floor_eq_iff)
  have k: "real (unat (word_of_int 6 :: IntType)) = 6" by simp
  have Hk: "zd_H ?A z (Fin (real (unat (word_of_int (c_round x) :: IntType)) + 1/2)) =
              Fin ((6001/1000) powr (3/2) / (3/2))"
    unfolding r k
    by (subst o, subst ieee_H_generic[where q = "- (499/1000)" and r = "3/2"]) simp_all
  have hk: "zd_h ?A z (Fin (real (unat (word_of_int (c_round x) :: IntType)))) =
              Fin ((5501/1000) powr (1/2))"
    unfolding r k
    by (subst o, subst ieee_h_value[where q = "- (499/1000)" and s = "- (1/2)"]) simp_all
  have D: "(6001/1000 :: real) powr (3/2) \<le> 1471/100"
    by (rule powr_three_halves_le) (simp_all add: power2_eq_square power3_eq_cube)
  have E: "(234/100 :: real) \<le> (5501/1000) powr (1/2)"
    by (rule powr_half_ge) (simp_all add: power2_eq_square)
  have "2/3 * (6001/1000 :: real) powr (3/2) - (5501/1000) powr (1/2) \<le> u"
    using D E ub by linarith
  then have sq: "(6001/1000) powr (3/2) / (3/2) - (5501/1000) powr (1/2) \<le> 1/2 * (b - a) + a"
    by (simp add: u_def)
  have "zd_call ?A (variate_library ?A) z (Fin (1/2) # g) =
          Some (word_of_int (c_round x), z, g)"
    by (rule ieee_squeeze_accept_nan_cut[OF d xv _ _ ct Hk hk sq]) (simp_all add: r)
  then show ?thesis by (simp add: r)
qed

subsection \<open>Agreement of the two embeddings\<close>

text \<open>
  Wherever the checked evaluation yields a finite value, the open embedding evaluated in
  the IEEE arithmetic without rounding yields the same value.
\<close>

lemma c_pow_ieee_pow: "c_pow x y = Inr v \<Longrightarrow> ieee_pow (Fin x) (Fin y) = Fin v"
  by (auto simp: c_pow_def split: if_splits)

lemma expxm1bx_agrees:
  assumes "expxm1bx x = Inr v"
  shows "zd_expxm1bx (ieee_arithmetic ov) (Fin x) = Fin v"
  using assms
  by (auto simp: expxm1bx_def zd_expxm1bx_def c_div_def c_expm1_def split: if_splits)

lemma log1pxbx_agrees:
  assumes "log1pxbx x = Inr v"
  shows "zd_log1pxbx (ieee_arithmetic ov) (Fin x) = Fin v"
  using assms
  by (auto simp: log1pxbx_def zd_log1pxbx_def c_div_def c_log1p_def bindE_def
      split: if_splits sum.splits)

lemma h_agrees:
  assumes "h z x = Inr v"
  shows "zd_h (ieee_arithmetic ov) (ieee_members z) (Fin x) = Fin v"
  using c_pow_ieee_pow[OF assms[unfolded h_def]]
  by (simp add: zd_h_def ieee_members_def del: ieee_pow.simps)

lemma H_agrees:
  assumes "H z x = Inr v"
  shows "zd_H (ieee_arithmetic ov) (ieee_members z) (Fin x) = Fin v"
proof (cases "spole z")
  case False
  with assms obtain w where w: "c_pow (x + z_q z) (oms z) = Inr w" and d: "c_div w (oms z) = Inr v"
    by (auto simp: H_def bindE_def split: sum.splits)
  from d have "oms z \<noteq> 0" "v = w / oms z" by (auto simp: c_div_def split: if_splits)
  with False c_pow_ieee_pow[OF w] show ?thesis
    by (simp add: zd_H_def ieee_members_def del: ieee_pow.simps)
next
  case True
  with assms obtain l e where l: "c_log (x + z_q z) = Inr l"
    and e: "expxm1bx (oms z * l) = Inr e" and v: "v = l * e"
    by (auto simp: H_def bindE_def split: sum.splits)
  from l have "0 < x + z_q z" "l = ln (x + z_q z)" by (auto simp: c_log_def split: if_splits)
  with True expxm1bx_agrees[OF e, of ov] v show ?thesis
    by (simp add: zd_H_def ieee_members_def Let_def)
qed

lemma H_inv_agrees:
  assumes "H_inv z y = Inr v"
  shows "zd_H_inv (ieee_arithmetic ov) (ieee_members z) (Fin y) = Fin v"
proof (cases "spole z")
  case False
  with assms obtain r w where r: "rvs z = Inr r" and w: "c_pow (y * oms z) r = Inr w"
    and v: "v = w - z_q z"
    by (auto simp: H_inv_def bindE_def split: sum.splits)
  with False c_pow_ieee_pow[OF w] show ?thesis
    by (simp add: zd_H_inv_def ieee_members_def ieee_of_RealType_def del: ieee_pow.simps)
next
  case True
  with assms obtain l where l: "log1pxbx (oms z * y) = Inr l" and v: "v = exp (y * l) - z_q z"
    by (auto simp: H_inv_def bindE_def split: sum.splits)
  with True log1pxbx_agrees[OF l, of ov] show ?thesis
    by (simp add: zd_H_inv_def ieee_members_def)
qed

text \<open>
  The first six members that the two constructors compute correspond, the checked
  evaluation taking the floating overload of \<open>abs\<close>.
\<close>

lemma first_members_agree:
  "zd_first_members (ieee_arithmetic Abs_floating) n (Fin s) (Fin q) = ieee_members (params_of n s q)"
  using epsilon_pos
  by (simp add: zd_first_members_def params_of_def ieee_members_def ieee_of_RealType_def
      c_div_def Let_def)

subsection \<open>A draw of the table sampler\<close>

text \<open>
  With the instance of the library's discrete distribution, the table for \<open>N = 2\<close>, \<open>s = 2\<close>,
  \<open>q = 0\<close> has the cumulative sums \<open>0, 4/5, 1\<close>; the variate 0 is not above the first of them,
  which belongs to the weight 0 stored at index 0, and the draw returns 0.
\<close>

lemma table_draw_of_variate_zero:
  assumes "zipf_table_distribution 2 2 0 = Some t"
  shows "zipf_table_distribution_call cumulative_draw t (0 # g) = (0, t, g)"
proof -
  note f = zipf_table_distribution_Some[OF assms]
  have p: "t_pdf t = [Inr 0, Inr 1, Inr (1/4)]"
    using f(2) by (simp add: c_pow_def powr_minus upt_rec power2_eq_square)
  have "cumulative_draw [Inr 0, Inr 1, Inr (1/4)] (0 # g) = (0, [Inr 0, Inr 1, Inr (1/4)], g)"
    by (simp add: cumulative_draw_def cumulative_sums_def Let_def upt_rec)
  then show ?thesis
    using f(3) p by (simp add: zipf_table_distribution_call_def)
qed

section \<open>The claims\<close>

text \<open>
  C1. The claim is that every value drawn lies in \<open>[1, N]\<close> for every \<open>(N, s, q)\<close> with
  \<open>q > -1/2\<close>. The code does not keep it: the constructor accepts \<open>N = 8\<close>, \<open>s = -1/2\<close>,
  \<open>q = -15/64\<close>, and the draw that obtains the canonical variate \<open>1/1000\<close> computes
  \<open>x = H_inv(u) < 1/2\<close>, rounds it to \<open>k = 0\<close>, passes the fast test and returns 0, whichever
  function the unqualified \<open>abs\<close> denotes. All values on the way are finite and \<open>x\<close> is about
  \<open>0.4975\<close>.
\<close>

theorem zipf_draw_below_support:
  "zd_construct_and_call (ieee_arithmetic ov) (variate_library (ieee_arithmetic ov))
     8 (Fin (- 1/2)) (Fin (- 15/64)) [Fin (1/1000)] = Some (Inr 0) \<and>
   \<not> (1 \<le> (0 :: IntType) \<and> (0 :: IntType) \<le> 8)"
  using negative_exponent_call[of ov] by simp



text \<open>
  C3. The claim is that the regime is selected by whether \<open>|1 - s|\<close> is below the tolerance.
  The constructor writes \<open>abs(oms)\<close> without \<open>std::\<close>. Where that names \<open>int abs(int)\<close>,
  the argument is truncated to an integer first, and every \<open>s\<close> with \<open>|1 - s| < 1\<close> takes the
  near-pole branch: for \<open>s = 3/2\<close> and \<open>q = 0\<close> the object has \<open>spole\<close> set and \<open>rvs = 0\<close>,
  \<open>H(4)\<close> is 1 and \<open>H_inv(-1)\<close> is \<open>4/9\<close>, where \<open>|1 - s| = 1/2\<close> is not below the tolerance
  and the generic formulas of the claim give \<open>-1\<close> and 4. Where \<open>abs\<close> names the floating
  overload the same construction is in the generic regime and computes \<open>-1\<close> and 4.
\<close>

theorem regime_selected_by_integer_abs:
  "(\<exists>z. zd_construct (ieee_arithmetic Abs_int) (variate_library (ieee_arithmetic Abs_int))
           300 (Fin (3/2)) (Fin 0) = Inr z \<and>
        m_spole z \<and> m_rvs z = Fin 0 \<and>
        zd_H (ieee_arithmetic Abs_int) z (Fin 4) = Fin 1 \<and>
        zd_H_inv (ieee_arithmetic Abs_int) z (Fin (- 1)) = Fin (4/9)) \<and>
   \<not> \<bar>1 - 3/2 :: real\<bar> < epsilon \<and> spec_H (3/2) 0 4 = - 1 \<and> spec_H_inv (3/2) 0 (- 1) = 4 \<and>
   (\<exists>z. zd_construct (ieee_arithmetic Abs_floating) (variate_library (ieee_arithmetic Abs_floating))
           300 (Fin (3/2)) (Fin 0) = Inr z \<and>
        \<not> m_spole z \<and> m_rvs z = Fin (- 2) \<and>
        zd_H (ieee_arithmetic Abs_floating) z (Fin 4) = Fin (- 1) \<and>
        zd_H_inv (ieee_arithmetic Abs_floating) z (Fin (- 1)) = Fin 4)"
proof -
  let ?I = "ieee_arithmetic Abs_int" and ?F = "ieee_arithmetic Abs_floating"
  have "\<exists>z. zd_construct ?I (variate_library ?I) 300 (Fin (3/2)) (Fin 0) = Inr z"
    by (rule zd_construct_succeeds) simp
  then obtain zi where i: "zd_construct ?I (variate_library ?I) 300 (Fin (3/2)) (Fin 0) = Inr zi" ..
  have "\<exists>z. zd_construct ?F (variate_library ?F) 300 (Fin (3/2)) (Fin 0) = Inr z"
    by (rule zd_construct_succeeds) simp
  then obtain zf where f: "zd_construct ?F (variate_library ?F) 300 (Fin (3/2)) (Fin 0) = Inr zf" ..
  have 1: "m_spole zi" "m_rvs zi = Fin 0"
    using zd_construct_Inr(6,7)[OF i] by (simp_all add: three_halves_int_abs_members)
  have 2: "zd_H ?I zi (Fin 4) = Fin 1" "zd_H_inv ?I zi (Fin (- 1)) = Fin (4/9)"
    by (simp_all only: zd_construct_functions[OF i] three_halves_int_abs_H
          three_halves_int_abs_H_inv)
  have 3: "\<not> m_spole zf" "m_rvs zf = Fin (- 2)"
    using zd_construct_Inr(6,7)[OF f] by (simp_all add: three_halves_floating_abs_members)
  have 4: "zd_H ?F zf (Fin 4) = Fin (- 1)" "zd_H_inv ?F zf (Fin (- 1)) = Fin 4"
    by (simp_all only: zd_construct_functions[OF f] three_halves_floating_abs_H
          three_halves_floating_abs_H_inv)
  have 5: "\<not> \<bar>1 - 3/2 :: real\<bar> < epsilon" by (simp add: epsilon_def)
  show ?thesis using i f 1 2 3 4 5 spec_three_halves by blast
qed

text \<open>
  C4. The constructor of \<open>zipf_distribution\<close> raises the range error if and only if
  \<open>q \<le> -1/2\<close>; then no object is returned; for every larger \<open>q\<close>, in particular
  \<open>q = -0.499999\<close>, an object is returned.
\<close>

theorem zipf_distribution_range_error_iff:
  "(zipf_distribution n s q = Inl Range_error \<longleftrightarrow> q \<le> - 1/2) \<and>
   (q \<le> - 1/2 \<longrightarrow> (\<forall>z. zipf_distribution n s q \<noteq> Inr z)) \<and>
   (- 1/2 < q \<longrightarrow> (\<exists>z. zipf_distribution n s q = Inr z)) \<and>
   (\<exists>z. zipf_distribution n s (- 499999 / 1000000) = Inr z)"
  by (simp add: zipf_distribution_def Let_def)

text \<open>Witness for C4: \<open>q = -1/2\<close> and \<open>q = -1\<close> fail, \<open>q = -0.499999\<close> succeeds.\<close>

theorem zipf_distribution_range_error_iff_witness:
  "zipf_distribution 300 1 (- 1/2) = Inl Range_error \<and>
   zipf_distribution 300 1 (- 1) = Inl Range_error \<and>
   (\<exists>z. zipf_distribution 300 1 (- 499999 / 1000000) = Inr z)"
  using zipf_distribution_range_error_iff[of 300 1 "- 1/2"]
    zipf_distribution_range_error_iff[of 300 1 "- 1"]
  by simp





text \<open>
  C8. A draw assigns to no member. For \<open>zipf_distribution\<close>, \<open>N\<close>, \<open>s\<close>, \<open>q\<close> and the six
  derived constants are after the call what they were before it; the only member the call
  acts on is \<open>dist\<close>, through the library's \<open>operator()\<close>, and where that leaves its object
  as it found it the whole sampler is unchanged. For \<open>zipf_table_distribution\<close>, the table
  \<open>_pdf\<close>, \<open>N\<close>, \<open>s\<close> and \<open>q\<close> are unchanged, the value returned, the member \<open>_dist\<close> and the
  generator after the call are those of the one library call, and where that leaves its
  object as it found it the whole sampler is unchanged.
\<close>

theorem draw_leaves_members_unchanged:
  "(zd_call A L z g = Some (k, z', g') \<longrightarrow>
      m_n z' = m_n z \<and> m_s z' = m_s z \<and> m_q z' = m_q z \<and> m_oms z' = m_oms z \<and>
      m_spole z' = m_spole z \<and> m_rvs z' = m_rvs z \<and> m_H_x1 z' = m_H_x1 z \<and>
      m_H_n z' = m_H_n z \<and> m_cut z' = m_cut z \<and>
      z' = z\<lparr>m_dist := m_dist z'\<rparr> \<and>
      ((\<forall>d g0. fst (snd (uniform_draw L d g0)) = d) \<longrightarrow> z' = z)) \<and>
   (zipf_table_distribution_call D t g2 = (i, t', g2') \<longrightarrow>
      t_pdf t' = t_pdf t \<and> t_n t' = t_n t \<and> t_s t' = t_s t \<and> t_q t' = t_q t \<and>
      t' = t\<lparr>t_dist := t_dist t'\<rparr> \<and>
      (i, t_dist t', g2') = D (t_dist t) g2 \<and>
      ((\<forall>d g0. fst (snd (D d g0)) = d) \<longrightarrow> t' = t))"
proof -
  have 1: "z' = z\<lparr>m_dist := m_dist z'\<rparr>" if "zd_call A L z g = Some (k, z', g')"
    using zd_call_frame[OF that] by simp
  have 2: "z' = z"
    if c: "zd_call A L z g = Some (k, z', g')" and "\<forall>d g0. fst (snd (uniform_draw L d g0)) = d"
  proof -
    have "m_dist z' = m_dist z" using zd_call_dist[OF that] by simp
    with 1[OF c] show ?thesis by simp
  qed
  have 3: "m_n z' = m_n z \<and> m_s z' = m_s z \<and> m_q z' = m_q z \<and> m_oms z' = m_oms z \<and>
      m_spole z' = m_spole z \<and> m_rvs z' = m_rvs z \<and> m_H_x1 z' = m_H_x1 z \<and>
      m_H_n z' = m_H_n z \<and> m_cut z' = m_cut z"
    if "zd_call A L z g = Some (k, z', g')"
    by (subst (1 2 3 4 5 6 7 8 9) 1[OF that]) simp
  have 4: "t' = t\<lparr>t_dist := t_dist t'\<rparr> \<and> (i, t_dist t', g2') = D (t_dist t) g2"
    if "zipf_table_distribution_call D t g2 = (i, t', g2')"
    using that by (auto simp: zipf_table_distribution_call_def split: prod.splits)
  have 5: "t_pdf t' = t_pdf t \<and> t_n t' = t_n t \<and> t_s t' = t_s t \<and> t_q t' = t_q t"
    if "zipf_table_distribution_call D t g2 = (i, t', g2')"
    using that by (auto simp: zipf_table_distribution_call_def split: prod.splits)
  have 6: "t' = t"
    if c: "zipf_table_distribution_call D t g2 = (i, t', g2')"
      and p: "\<forall>d g0. fst (snd (D d g0)) = d"
  proof -
    from 4[OF c] have "t_dist t' = fst (snd (D (t_dist t) g2))" by (metis fst_conv snd_conv)
    with p have "t_dist t' = t_dist t" by simp
    with 4[OF c] show ?thesis by simp
  qed
  show ?thesis using 1 2 3 4 5 6 by blast
qed

text \<open>
  Witness for C8: the sampler with \<open>N = 300\<close>, \<open>s = 2\<close>, \<open>q = 0\<close> drawing 1 from the variate 0,
  and the table sampler with \<open>N = 2\<close>, \<open>s = 2\<close>, \<open>q = 0\<close> drawing 1 from the variate \<open>1/2\<close>; both
  libraries leave their objects as they found them.
\<close>

theorem draw_leaves_members_unchanged_witness:
  "(\<exists>z z' g'. zd_construct (ieee_arithmetic Abs_floating)
            (variate_library (ieee_arithmetic Abs_floating)) 300 (Fin 2) (Fin 0) = Inr z \<and>
       zd_call (ieee_arithmetic Abs_floating) (variate_library (ieee_arithmetic Abs_floating))
          z [Fin 0, Fin (1/2)] = Some (1, z', g') \<and>
       (\<forall>d g0. fst (snd (uniform_draw (variate_library (ieee_arithmetic Abs_floating)) d g0)) = d) \<and>
       m_cut z' = m_cut z \<and> z' = z \<and> g' = [Fin (1/2)]) \<and>
   (\<exists>t t' g'. zipf_table_distribution 2 2 0 = Some t \<and>
       zipf_table_distribution_call cumulative_draw t [1/2, 1/4] = (1, t', g') \<and>
       (\<forall>d g0. fst (snd (cumulative_draw d g0)) = d) \<and>
       t_pdf t' = t_pdf t \<and> t' = t \<and> g' = [1/4])"
proof -
  let ?A = "ieee_arithmetic Abs_floating"
  have "\<exists>z. zd_construct ?A (variate_library ?A) 300 (Fin 2) (Fin 0) = Inr z"
    by (rule zd_construct_succeeds) simp
  then obtain z where c: "zd_construct ?A (variate_library ?A) 300 (Fin 2) (Fin 0) = Inr z" ..
  note d = square_law_draw[OF c, of "[Fin (1/2)]"]
  have p: "\<forall>d g0. fst (snd (uniform_draw (variate_library ?A) d g0)) = d"
    by (simp add: variate_library_keeps_object)
  obtain t where t: "zipf_table_distribution 2 2 0 = Some t"
    using table_of_square_law by blast
  have q: "\<forall>d g0. fst (snd (cumulative_draw d g0)) = d"
    by (simp add: cumulative_draw_def Let_def)
  have e: "zipf_table_distribution_call cumulative_draw t [1/2, 1/4] = (1, t, [1/4])"
  proof -
    note f = zipf_table_distribution_Some[OF t]
    have pdf: "t_pdf t = [Inr 0, Inr 1, Inr (1/4)]"
      using f(2) by (simp add: c_pow_def powr_minus upt_rec power2_eq_square)
    have "cumulative_draw [Inr 0, Inr 1, Inr (1/4)] [1/2, 1/4] =
            (1, [Inr 0, Inr 1, Inr (1/4)], [1/4])"
      by (simp add: cumulative_draw_def cumulative_sums_def Let_def upt_rec)
    then show ?thesis
      using f(3) pdf by (simp add: zipf_table_distribution_call_def)
  qed
  note w = draw_leaves_members_unchanged[of ?A "variate_library ?A" z "[Fin 0, Fin (1/2)]" 1 z
      "[Fin (1/2)]" cumulative_draw t "[1/2, 1/4]" 1 t "[1/4]"]
  from w c d p t e q show ?thesis by blast
qed

text \<open>
  C9. For \<open>|t| \<le> epsilon\<close>, in particular \<open>t = 0\<close>, \<open>expxm1bx\<close> and \<open>log1pxbx\<close> return the
  truncated polynomial and divide by nothing; for \<open>s\<close> within \<open>epsilon\<close> of 1 the
  constructor stores \<open>rvs = 0\<close>, and no evaluation of \<open>H\<close>, \<open>H_inv\<close>, of the derived
  members or of a draw divides by zero; at \<open>s = 1\<close>, \<open>H(x) = log(x + q)\<close> and
  \<open>H_inv(y) = exp(y) - q\<close>.
\<close>

theorem near_pole_no_division_by_zero:
  "(\<bar>t\<bar> \<le> epsilon \<longrightarrow>
      expxm1bx t = Inr (1 + t / 2 * (1 + t / 3 * (1 + t / 4))) \<and>
      log1pxbx t = Inr (1 - t * ((1 / 2) - t * ((1 / 3) - t * (1 / 4))))) \<and>
   expxm1bx 0 = Inr 1 \<and> log1pxbx 0 = Inr 1 \<and>
   expxm1bx t \<noteq> Inl Div_by_zero \<and> log1pxbx t \<noteq> Inl Div_by_zero \<and>
   (zipf_distribution n s q = Inr z \<and> \<bar>1 - s\<bar> < epsilon \<longrightarrow>
      rvs z = Inr 0 \<and> H z x \<noteq> Inl Div_by_zero \<and> H_inv z y \<noteq> Inl Div_by_zero \<and>
      H_x1 z \<noteq> Inl Div_by_zero \<and> H_n z \<noteq> Inl Div_by_zero \<and> cut z \<noteq> Inl Div_by_zero \<and>
      zipf_distribution_call z rng \<noteq> Some (Inl Div_by_zero)) \<and>
   (zipf_distribution n 1 q = Inr z1 \<longrightarrow>
      (0 < x + q \<longrightarrow> H z1 x = Inr (ln (x + q))) \<and> H_inv z1 y = Inr (exp y - q))"
proof -
  have 1: "\<bar>t\<bar> \<le> epsilon \<longrightarrow>
      expxm1bx t = Inr (1 + t / 2 * (1 + t / 3 * (1 + t / 4))) \<and>
      log1pxbx t = Inr (1 - t * ((1 / 2) - t * ((1 / 3) - t * (1 / 4))))"
    by (simp add: expxm1bx_def log1pxbx_def)
  have 2: "expxm1bx 0 = Inr 1 \<and> log1pxbx 0 = Inr 1"
    using epsilon_pos by (simp add: expxm1bx_def log1pxbx_def)
  have 3: "rvs z = Inr 0 \<and> H z x \<noteq> Inl Div_by_zero \<and> H_inv z y \<noteq> Inl Div_by_zero \<and>
      H_x1 z \<noteq> Inl Div_by_zero \<and> H_n z \<noteq> Inl Div_by_zero \<and> cut z \<noteq> Inl Div_by_zero \<and>
      zipf_distribution_call z rng \<noteq> Some (Inl Div_by_zero)"
    if c: "zipf_distribution n s q = Inr z" and "\<bar>1 - s\<bar> < epsilon"
    using zipf_distribution_Inr(7)[OF c] that(2)
      H_no_div0[OF c] H_inv_no_div0[OF c] members_no_div0[OF c] call_no_div0[OF c]
    by simp
  have 4: "(0 < x + q \<longrightarrow> H z1 x = Inr (ln (x + q))) \<and> H_inv z1 y = Inr (exp y - q)"
    if "zipf_distribution n 1 q = Inr z1"
    using zipf_distribution_Inr[OF that] epsilon_pos 2
    by (simp add: H_def H_inv_def c_log_def)
  show ?thesis using 1 2 3 4 expxm1bx_no_div0 log1pxbx_no_div0 by blast
qed

text \<open>Witness for C9: the default exponent \<open>s = 1\<close> with \<open>N = 300\<close>, \<open>q = 0\<close>.\<close>

theorem near_pole_no_division_by_zero_witness:
  "\<bar>0 :: real\<bar> \<le> epsilon \<and> expxm1bx 0 = Inr 1 \<and> log1pxbx 0 = Inr 1 \<and>
   (\<exists>z. zipf_distribution 300 1 0 = Inr z \<and> \<bar>1 - (1::real)\<bar> < epsilon \<and> rvs z = Inr 0 \<and>
        H z (3/2) = Inr (ln (3/2)) \<and> H_inv z 0 = Inr 1 \<and>
        zipf_distribution_call z [0] \<noteq> Some (Inl Div_by_zero))"
proof -
  obtain z where z: "zipf_distribution 300 1 0 = Inr z"
    using zipf_distribution_succeeds[of 0 300 1] by auto
  have e: "\<bar>1 - (1::real)\<bar> < epsilon" "\<bar>0 :: real\<bar> \<le> epsilon" by (simp_all add: epsilon_def)
  note t = near_pole_no_division_by_zero[of 0 300 1 0 z "3/2" 0 "[0]" z]
  from t z e have "expxm1bx 0 = Inr 1" "log1pxbx 0 = Inr 1" "rvs z = Inr 0"
    "H z (3/2) = Inr (ln (3/2))" "H_inv z 0 = Inr 1"
    "zipf_distribution_call z [0] \<noteq> Some (Inl Div_by_zero)"
    by simp_all
  with z e show ?thesis by blast
qed

text \<open>
  C10. In a constructed object, \<open>N\<close>, \<open>s\<close>, \<open>q\<close> are the arguments of the constructor and
  \<open>oms\<close>, \<open>spole\<close>, \<open>rvs\<close> are computed from \<open>s\<close>; \<open>H\<close>, \<open>h\<close> and \<open>H_inv\<close> of the object are the
  functions that the arguments determine; \<open>H_x1 = H(1.5) - h(1.0)\<close>, \<open>H_n = H(N + 0.5)\<close> and
  \<open>cut = 1 - H_inv(H(1.5) - h(1.0))\<close>; the member \<open>dist\<close> is the uniform distribution
  constructed on \<open>(H_x1, H_n)\<close>. Each pass of a draw obtains its \<open>u\<close> by one call of the
  library on that member, which nothing else changes, and the value that a draw returns is
  \<open>round(H_inv(u))\<close> for a \<open>u\<close> that the library drew from the distribution constructed on
  \<open>(H_x1, H_n)\<close>, in a state that calls of the library led to.
\<close>

theorem derived_constants:
  assumes "zd_construct A L n s q = Inr z"
  shows "m_n z = n \<and> m_s z = s \<and> m_q z = q \<and>
         m_oms z = d_sub A (d_lit A 1) s \<and>
         m_spole z = d_lt A (d_unqualified_abs A (d_sub A (d_lit A 1) s)) (d_lit A epsilon) \<and>
         m_rvs z = (if m_spole z then d_lit A 0 else d_div A (d_lit A 1) (m_oms z)) \<and>
         zd_H A z = zd_H A (zd_first_members A n s q) \<and>
         zd_h A z = zd_h A (zd_first_members A n s q) \<and>
         zd_H_inv A z = zd_H_inv A (zd_first_members A n s q) \<and>
         m_H_x1 z = d_sub A (zd_H A z (d_lit A 1.5)) (zd_h A z (d_lit A 1)) \<and>
         m_H_n z = zd_H A z (d_add A (d_of_IntType A n) (d_lit A 0.5)) \<and>
         m_cut z = d_sub A (d_lit A 1)
                     (zd_H_inv A z (d_sub A (zd_H A z (d_lit A 1.5)) (zd_h A z (d_lit A 1)))) \<and>
         m_dist z = uniform_new L (m_H_x1 z) (m_H_n z) \<and>
         (\<forall>g u d' g'. uniform_draw L (uniform_new L (m_H_x1 z) (m_H_n z)) g = (u, d', g') \<longrightarrow>
            snd (zd_pass A L z g) = (z\<lparr>m_dist := d'\<rparr>, g') \<and>
            (fst (zd_pass A L z g) = None \<or>
             fst (zd_pass A L z g) = Some (d_to_IntType A (d_round A (zd_H_inv A z u))))) \<and>
         (\<forall>g k z' g'. zd_call A L z g = Some (k, z', g') \<longrightarrow>
            (\<exists>d g0 u. uniform_states L (uniform_new L (m_H_x1 z) (m_H_n z)) d \<and>
                uniform_draw L d g0 = (u, m_dist z', g') \<and>
                k = d_to_IntType A (d_round A (zd_H_inv A z u))))"
proof -
  note f = zd_construct_Inr[OF assms]
  note e = zd_construct_functions[OF assms]
  have 1: "m_n z = n \<and> m_s z = s \<and> m_q z = q \<and>
         m_oms z = d_sub A (d_lit A 1) s \<and>
         m_spole z = d_lt A (d_unqualified_abs A (d_sub A (d_lit A 1) s)) (d_lit A epsilon) \<and>
         m_rvs z = (if m_spole z then d_lit A 0 else d_div A (d_lit A 1) (m_oms z))"
    using f(2-7) by (simp add: zd_first_members_fields)
  have 2: "m_H_x1 z = d_sub A (zd_H A z (d_lit A 1.5)) (zd_h A z (d_lit A 1))"
    "m_H_n z = zd_H A z (d_add A (d_of_IntType A n) (d_lit A 0.5))"
    "m_cut z = d_sub A (d_lit A 1)
                 (zd_H_inv A z (d_sub A (zd_H A z (d_lit A 1.5)) (zd_h A z (d_lit A 1))))"
    unfolding e by (rule f(8) f(9) f(10))+
  have 3: "snd (zd_pass A L z g) = (z\<lparr>m_dist := d'\<rparr>, g') \<and>
            (fst (zd_pass A L z g) = None \<or>
             fst (zd_pass A L z g) = Some (d_to_IntType A (d_round A (zd_H_inv A z u))))"
    if "uniform_draw L (uniform_new L (m_H_x1 z) (m_H_n z)) g = (u, d', g')" for g u d' g'
  proof -
    from that have "uniform_draw L (m_dist z) g = (u, d', g')" by (simp only: f(11))
    from zd_pass_drawn[OF this, of A] show ?thesis by simp
  qed
  have 4: "\<exists>d g0 u. uniform_states L (uniform_new L (m_H_x1 z) (m_H_n z)) d \<and>
                uniform_draw L d g0 = (u, m_dist z', g') \<and>
                k = d_to_IntType A (d_round A (zd_H_inv A z u))"
    if c: "zd_call A L z g = Some (k, z', g')" for g k z' g'
  proof -
    have "uniform_states L (uniform_new L (m_H_x1 z) (m_H_n z)) (m_dist z)"
      unfolding f(11) by (rule uniform_states.initial)
    from zd_call_draws[OF c this] show ?thesis by simp
  qed
  show ?thesis using 1 e 2 f(11) 3 4 by blast
qed

text \<open>
  Witness for C10: \<open>N = 300\<close>, \<open>s = 2\<close>, \<open>q = 0\<close>, where \<open>H_x1 = -5/3\<close>, \<open>H_n = -2/601\<close> and
  \<open>cut = 2/5\<close>, and the draw from the variate 0 returns \<open>round(H_inv(-5/3)) = 1\<close>.
\<close>

theorem derived_constants_witness:
  "\<exists>z. zd_construct (ieee_arithmetic Abs_floating) (variate_library (ieee_arithmetic Abs_floating))
          300 (Fin 2) (Fin 0) = Inr z \<and>
       m_n z = 300 \<and> m_s z = Fin 2 \<and> m_q z = Fin 0 \<and>
       m_H_x1 z = Fin (- (5/3)) \<and> m_H_n z = Fin (- (2/601)) \<and> m_cut z = Fin (2/5) \<and>
       zd_H (ieee_arithmetic Abs_floating) z (Fin (3/2)) = Fin (- (2/3)) \<and>
       m_dist z = \<lparr>bound_a = Fin (- (5/3)), bound_b = Fin (- (2/601))\<rparr> \<and>
       zd_call (ieee_arithmetic Abs_floating) (variate_library (ieee_arithmetic Abs_floating))
          z [Fin 0] = Some (1, z, []) \<and>
       (\<exists>d g0 u. uniform_states (variate_library (ieee_arithmetic Abs_floating))
                   \<lparr>bound_a = Fin (- (5/3)), bound_b = Fin (- (2/601))\<rparr> d \<and>
          uniform_draw (variate_library (ieee_arithmetic Abs_floating)) d g0 = (u, m_dist z, []) \<and>
          (1 :: IntType) = ieee_to_IntType (ieee_round (zd_H_inv (ieee_arithmetic Abs_floating) z u)))"
proof -
  let ?A = "ieee_arithmetic Abs_floating"
  have "\<exists>z. zd_construct ?A (variate_library ?A) 300 (Fin 2) (Fin 0) = Inr z"
    by (rule zd_construct_succeeds) simp
  then obtain z where c: "zd_construct ?A (variate_library ?A) 300 (Fin 2) (Fin 0) = Inr z" ..
  note t = derived_constants[OF c]
  note o = square_law_object[OF c]
  have v: "m_H_x1 z = Fin (- (5/3))" "m_H_n z = Fin (- (2/601))" "m_cut z = Fin (2/5)"
    by (subst o, simp)+
  have "zd_H ?A (zd_first_members ?A 300 (Fin 2) (Fin 0)) (Fin (3/2)) = Fin (- (2/3))"
    by (subst ieee_H_generic[where q = 0 and r = "- 1"])
      (simp_all add: square_law_first_members powr_minus)
  moreover from t have "zd_H ?A z = zd_H ?A (zd_first_members ?A 300 (Fin 2) (Fin 0))"
    by blast
  ultimately have H: "zd_H ?A z (Fin (3/2)) = Fin (- (2/3))" by simp
  have d: "zd_call ?A (variate_library ?A) z [Fin 0] = Some (1, z, [])"
    by (rule square_law_draw[OF c])
  from t d have "\<exists>d g0 u. uniform_states (variate_library ?A)
                   (uniform_new (variate_library ?A) (m_H_x1 z) (m_H_n z)) d \<and>
          uniform_draw (variate_library ?A) d g0 = (u, m_dist z, []) \<and>
          (1 :: IntType) = d_to_IntType ?A (d_round ?A (zd_H_inv ?A z u))"
    by blast
  then have "\<exists>d g0 u. uniform_states (variate_library ?A)
                   \<lparr>bound_a = Fin (- (5/3)), bound_b = Fin (- (2/601))\<rparr> d \<and>
          uniform_draw (variate_library ?A) d g0 = (u, m_dist z, []) \<and>
          (1 :: IntType) = ieee_to_IntType (ieee_round (zd_H_inv ?A z u))"
    by (simp add: v)
  moreover have "m_n z = 300" "m_s z = Fin 2" "m_q z = Fin 0"
    "m_dist z = \<lparr>bound_a = Fin (- (5/3)), bound_b = Fin (- (2/601))\<rparr>"
    using t v by simp_all
  ultimately show ?thesis using c v H d by blast
qed

end
